theory Spec2Isabelle
  imports Complex_Main "HOL-Library.Char_ord" "HOL-Library.List_Lexorder"
    "HOL-Library.Product_Lexorder"
begin

section \<open>Values decoded from the tracker's JSON payloads\<close>

text \<open>
  \<^verbatim>\<open>response.json()\<close> yields Python values built from \<^verbatim>\<open>None\<close>, booleans, numbers,
  strings, lists and dicts. A dict is an association list read with \<open>map_of\<close>. Numbers are
  the finite ones, as rationals (Python's \<open>int\<close> and finite \<open>float\<close> compare alike with
  \<open>8\<close> and have the same truth value); a string is its UTF-8 byte list.
\<close>

datatype json =
    JNull
  | JBool bool
  | JNum rat
  | JStr string
  | JArr "json list"
  | JObj "(string \<times> json) list"

datatype error = KeyError | TypeError | AttributeError | ValueError | RequestError

text \<open>Sequencing of statements that may raise: the first exception ends the function.\<close>

definition ebind :: "error + 'a \<Rightarrow> ('a \<Rightarrow> error + 'b) \<Rightarrow> error + 'b" where
  "ebind m f = (case m of Inl e \<Rightarrow> Inl e | Inr x \<Rightarrow> f x)"

text \<open>\<^verbatim>\<open>d[k]\<close>: only a dict can be indexed by a string, and the key must be there.\<close>

fun subscript :: "json \<Rightarrow> string \<Rightarrow> error + json" where
  "subscript (JObj kvs) k = (case map_of kvs k of None \<Rightarrow> Inl KeyError | Some v \<Rightarrow> Inr v)"
| "subscript v k = Inl TypeError"

text \<open>
  \<^verbatim>\<open>d.get(k, default)\<close>: the default replaces an absent key only. A key that is present
  with the value \<^verbatim>\<open>None\<close> yields \<^verbatim>\<open>None\<close>, and a receiver that is not a dict has no
  \<^verbatim>\<open>get\<close> attribute.
\<close>

fun py_get :: "json \<Rightarrow> string \<Rightarrow> json \<Rightarrow> error + json" where
  "py_get (JObj kvs) k d = (case map_of kvs k of None \<Rightarrow> Inr d | Some v \<Rightarrow> Inr v)"
| "py_get v k d = Inl AttributeError"

text \<open>Python's truth value of a decoded value.\<close>

fun truthy :: "json \<Rightarrow> bool" where
  "truthy JNull = False"
| "truthy (JBool b) = b"
| "truthy (JNum r) = (r \<noteq> 0)"
| "truthy (JStr s) = (s \<noteq> [])"
| "truthy (JArr xs) = (xs \<noteq> [])"
| "truthy (JObj kvs) = (kvs \<noteq> [])"

text \<open>
  \<^verbatim>\<open>str.lower\<close>. Only the ASCII capitals are mapped: no character outside ASCII
  lower-cases to one of the letters of \<open>done\<close>, so the comparison with \<open>''done''\<close> is the
  source's.
\<close>

definition lower_char :: "char \<Rightarrow> char" where
  "lower_char c =
     (case map_of (zip ''ABCDEFGHIJKLMNOPQRSTUVWXYZ'' ''abcdefghijklmnopqrstuvwxyz'') c of
        None \<Rightarrow> c
      | Some l \<Rightarrow> l)"

fun py_lower :: "json \<Rightarrow> error + string" where
  "py_lower (JStr s) = Inr (map lower_char s)"
| "py_lower v = Inl AttributeError"

text \<open>
  \<^verbatim>\<open>x >= 8\<close> for a decoded value: numbers compare, \<^verbatim>\<open>True\<close> and \<^verbatim>\<open>False\<close> are 1 and 0,
  every other kind raises \<^verbatim>\<open>TypeError\<close>.
\<close>

fun py_ge :: "json \<Rightarrow> rat \<Rightarrow> error + bool" where
  "py_ge (JNum r) n = Inr (n \<le> r)"
| "py_ge (JBool b) n = Inr (n \<le> of_bool b)"
| "py_ge v n = Inl TypeError"

text \<open>\<^verbatim>\<open>x == "literal"\<close> never raises; only an equal string is equal.\<close>

fun py_eq_str :: "json \<Rightarrow> string \<Rightarrow> bool" where
  "py_eq_str (JStr s) t = (s = t)"
| "py_eq_str v t = False"

section \<open>The pandas boundary\<close>

text \<open>
  A scalar datetime of pandas is \<open>NaT\<close> or a timestamp: an instant and whether it
  carries a time zone. \<^verbatim>\<open>pd.to_datetime\<close> is a library function, and the source pins
  no release of the library; its behaviour is a parameter of the model:
  \<^item> a string goes through the date parser \<open>parse_dt\<close>; a string it rejects is \<open>NaT\<close>
    under \<^verbatim>\<open>errors="coerce"\<close> and a \<^verbatim>\<open>ValueError\<close> otherwise;
  \<^item> any other kind of value, \<^verbatim>\<open>None\<close> among them, goes to \<open>convert_other\<close>, which
    raises or yields a datetime or \<^verbatim>\<open>None\<close> (in the model: \<open>None\<close>).
\<close>

datatype stamp = NaT | Timestamp int bool

text \<open>
  Two more parameters belong to the summary frame (lines 109 to 114). \<open>group_rank\<close> is
  how \<^verbatim>\<open>groupby\<close> ranks the display names when it puts the groups in ascending order
  (names of different kinds may occur). \<open>column_sum\<close> is the \<^verbatim>\<open>sum\<close> of a group's story
  points, given the whole column, which decides the dtype, and the group's values: it
  adds float64 with rounding and int64 with wrap-around, and may raise.
\<close>

record pandas =
  parse_dt :: "string \<Rightarrow> stamp option"
  convert_other :: "bool \<Rightarrow> json \<Rightarrow> error + stamp option"
  group_rank :: "json \<Rightarrow> nat \<times> rat \<times> string"
  column_sum :: "json list \<Rightarrow> json list \<Rightarrow> error + json"

fun to_datetime :: "pandas \<Rightarrow> bool \<Rightarrow> json \<Rightarrow> error + stamp option" where
  "to_datetime P coerce (JStr s) =
     (case parse_dt P s of
        Some t \<Rightarrow> Inr (Some t)
      | None \<Rightarrow> if coerce then Inr (Some NaT) else Inl ValueError)"
| "to_datetime P coerce v = convert_other P coerce v"

text \<open>
  \<^verbatim>\<open>a > b\<close> on the results: \<open>NaT\<close> is after nothing and nothing is after it; two
  timestamps compare by instant when both or neither carry a zone and raise
  \<^verbatim>\<open>TypeError\<close> otherwise; \<^verbatim>\<open>None\<close> on either side raises \<^verbatim>\<open>TypeError\<close>.
\<close>

fun py_gt :: "stamp option \<Rightarrow> stamp option \<Rightarrow> error + bool" where
  "py_gt (Some (Timestamp a za)) (Some (Timestamp b zb)) =
     (if za = zb then Inr (b < a) else Inl TypeError)"
| "py_gt (Some NaT) (Some y) = Inr False"
| "py_gt (Some x) (Some NaT) = Inr False"
| "py_gt None y = Inl TypeError"
| "py_gt x None = Inl TypeError"

section \<open>The spillover classifier\<close>

text \<open>
  Two chained reads occur twice in the source, in the classifier (lines 48 and 52) and
  in the main loop (lines 91 and 90): the name of the status category and the display
  name of the assignee.
\<close>

definition status_of :: "json \<Rightarrow> error + json" where
  "status_of fs =
     ebind (py_get fs ''status'' (JObj [])) (\<lambda>st.
     ebind (py_get st ''statusCategory'' (JObj [])) (\<lambda>cat.
       py_get cat ''name'' (JStr [])))"

definition assignee_of :: "json \<Rightarrow> error + json" where
  "assignee_of fs =
     ebind (py_get fs ''assignee'' (JObj [])) (\<lambda>a.
       py_get a ''displayName'' (JStr ''Unassigned''))"

text \<open>
  \<^verbatim>\<open>get_spillover_reason(issue, sprint_start, sprint_end)\<close>, statement by statement.
  The five field reads come first, each of them able to raise, then the rule cascade.
  The result \<open>None\<close> is Python's \<^verbatim>\<open>None\<close>: not a spillover.
\<close>

definition get_spillover_reason ::
  "pandas \<Rightarrow> json \<Rightarrow> json \<Rightarrow> json \<Rightarrow> error + string option" where
  "get_spillover_reason P issue sprint_start sprint_end =
     ebind (subscript issue ''fields'') (\<lambda>fields.
     ebind (status_of fields) (\<lambda>status.
     ebind (py_get fields ''created'' JNull) (\<lambda>c.
     ebind (to_datetime P True c) (\<lambda>created.
     ebind (py_get fields ''updated'' JNull) (\<lambda>u.
     ebind (to_datetime P True u) (\<lambda>updated.
     ebind (py_get fields ''customfield_10016'' (JNum 0)) (\<lambda>story_points.
     ebind (assignee_of fields) (\<lambda>assignee.
     ebind (py_lower status) (\<lambda>low.
       if low = ''done'' then Inr None
       else
         ebind (to_datetime P False sprint_start) (\<lambda>s.
         ebind (py_gt created s) (\<lambda>after_start.
           if after_start then Inr (Some ''Scope added mid-sprint'')
           else
             ebind (if truthy story_points then py_ge story_points 8 else Inr False)
               (\<lambda>big.
               if big then Inr (Some ''Underestimated effort'')
               else
                 ebind (to_datetime P False sprint_end) (\<lambda>e.
                 ebind (py_gt updated e) (\<lambda>after_end.
                   if after_end then Inr (Some ''Carried over work post-sprint'')
                   else if py_eq_str assignee ''Unassigned''
                     then Inr (Some ''No assignee during sprint'')
                   else Inr (Some ''General delay / blocked'')))))))))))))))"

section \<open>The paginated fetchers\<close>

text \<open>
  The service answers a page request with a payload or the request fails
  (\<open>RequestError\<close>: transport failure or a body that is not JSON). Its answer may depend
  on the offset asked for and on how many requests came before (a service whose data
  changes, or a mock that hands out a fixed sequence of pages).
\<close>

type_synonym server = "nat \<Rightarrow> nat \<Rightarrow> error + json"

text \<open>
  \<^verbatim>\<open>acc.extend(x)\<close> and \<^verbatim>\<open>len(x)\<close>: a list contributes its elements, a string its
  characters and a dict its keys; \<^verbatim>\<open>None\<close>, booleans and numbers raise \<^verbatim>\<open>TypeError\<close>.
\<close>

fun py_extend :: "json list \<Rightarrow> json \<Rightarrow> error + json list" where
  "py_extend acc (JArr xs) = Inr (acc @ xs)"
| "py_extend acc (JStr s) = Inr (acc @ map (\<lambda>c. JStr [c]) s)"
| "py_extend acc (JObj kvs) = Inr (acc @ map (\<lambda>kv. JStr (fst kv)) kvs)"
| "py_extend acc v = Inl TypeError"

fun py_len :: "json \<Rightarrow> error + nat" where
  "py_len (JArr xs) = Inr (length xs)"
| "py_len (JStr s) = Inr (length s)"
| "py_len (JObj kvs) = Inr (length kvs)"
| "py_len v = Inl TypeError"

text \<open>
  The state of a fetch loop: the records gathered so far, the next offset, and the
  offsets requested so far (the outbound requests, which are the loop's only effect).
\<close>

record fetch_state =
  gathered :: "json list"
  start_at :: nat
  requested :: "nat list"

text \<open>
  One pass through the body of the \<^verbatim>\<open>while True\<close> loop of \<^verbatim>\<open>get_sprints\<close>:
  \<open>Inr (Inr st)\<close> is the \<^verbatim>\<open>break\<close>, \<open>Inr (Inl st)\<close> goes round again.
\<close>

definition get_sprints_body :: "server \<Rightarrow> fetch_state \<Rightarrow> error + (fetch_state + fetch_state)" where
  "get_sprints_body srv st =
     ebind (srv (length (requested st)) (start_at st)) (\<lambda>data.
     ebind (py_get data ''values'' (JArr [])) (\<lambda>vs.
     ebind (py_extend (gathered st) vs) (\<lambda>sprints.
     ebind (py_get data ''isLast'' (JBool True)) (\<lambda>is_last.
       if truthy is_last
       then Inr (Inr \<lparr>gathered = sprints, start_at = start_at st,
                        requested = requested st @ [start_at st]\<rparr>)
       else
         ebind (py_get data ''values'' (JArr [])) (\<lambda>vs'.
         ebind (py_len vs') (\<lambda>n.
           Inr (Inl \<lparr>gathered = sprints, start_at = start_at st + n,
                       requested = requested st @ [start_at st]\<rparr>)))))))"

text \<open>The body of the loop of \<^verbatim>\<open>get_issues_for_sprint\<close>, which also stops at an empty page.\<close>

definition get_issues_body :: "server \<Rightarrow> fetch_state \<Rightarrow> error + (fetch_state + fetch_state)" where
  "get_issues_body srv st =
     ebind (srv (length (requested st)) (start_at st)) (\<lambda>data.
     ebind (py_get data ''issues'' (JArr [])) (\<lambda>vs.
     ebind (py_extend (gathered st) vs) (\<lambda>issues.
     ebind (py_get data ''isLast'' (JBool True)) (\<lambda>is_last.
     ebind (if truthy is_last then Inr True
            else ebind (py_get data ''issues'' (JArr [])) (\<lambda>vs'.
                 ebind (py_len vs') (\<lambda>n. Inr (n = 0)))) (\<lambda>stop.
       if stop
       then Inr (Inr \<lparr>gathered = issues, start_at = start_at st,
                        requested = requested st @ [start_at st]\<rparr>)
       else
         ebind (py_get data ''issues'' (JArr [])) (\<lambda>vs'.
         ebind (py_len vs') (\<lambda>n.
           Inr (Inl \<lparr>gathered = issues, start_at = start_at st + n,
                       requested = requested st @ [start_at st]\<rparr>))))))))"

text \<open>
  \<^verbatim>\<open>while True\<close>: the loop may run forever, and then it has no result (\<open>None\<close>).
\<close>

partial_function (option) while_true ::
  "(fetch_state \<Rightarrow> error + (fetch_state + fetch_state)) \<Rightarrow> fetch_state
     \<Rightarrow> (error + fetch_state) option" where
  "while_true body st =
     (case body st of
        Inl e \<Rightarrow> Some (Inl e)
      | Inr (Inr done) \<Rightarrow> Some (Inr done)
      | Inr (Inl again) \<Rightarrow> while_true body again)"

definition fetch_init :: fetch_state where
  "fetch_init = \<lparr>gathered = [], start_at = 0, requested = []\<rparr>"

definition get_sprints :: "server \<Rightarrow> (error + fetch_state) option" where
  "get_sprints srv = while_true (get_sprints_body srv) fetch_init"

definition get_issues_for_sprint :: "server \<Rightarrow> (error + fetch_state) option" where
  "get_issues_for_sprint srv = while_true (get_issues_body srv) fetch_init"

section \<open>The run: classification of every fetched issue\<close>

text \<open>
  A result that may also be missing because a fetch loop never ends: \<open>None\<close> is a run
  that does not return, \<open>Some (Inl e)\<close> one that raises, \<open>Some (Inr x)\<close> one that returns.
\<close>

definition rbind ::
  "(error + 'a) option \<Rightarrow> ('a \<Rightarrow> (error + 'b) option) \<Rightarrow> (error + 'b) option" where
  "rbind m f = (case m of None \<Rightarrow> None | Some (Inl e) \<Rightarrow> Some (Inl e) | Some (Inr x) \<Rightarrow> f x)"

text \<open>One element of \<^verbatim>\<open>records\<close>: the dict appended for an issue.\<close>

record row =
  Sprint :: json
  Assignee :: json
  Issue_Key :: json
  Summary :: json
  Status :: json
  Story_Points :: json
  Spillover_Reason :: "string option"

text \<open>The body of \<^verbatim>\<open>for issue in issues\<close>: the reads, the classification, the dict.\<close>

definition make_record :: "pandas \<Rightarrow> json \<Rightarrow> json \<Rightarrow> json \<Rightarrow> json \<Rightarrow> error + row" where
  "make_record P sprint_name sprint_start sprint_end issue =
     ebind (subscript issue ''fields'') (\<lambda>fields.
     ebind (assignee_of fields) (\<lambda>assignee.
     ebind (status_of fields) (\<lambda>status.
     ebind (py_get fields ''customfield_10016'' (JNum 0)) (\<lambda>story_points.
     ebind (get_spillover_reason P issue sprint_start sprint_end) (\<lambda>reason.
     ebind (subscript issue ''key'') (\<lambda>key.
     ebind (py_get fields ''summary'' (JStr [])) (\<lambda>summary.
       Inr \<lparr>Sprint = sprint_name, Assignee = assignee, Issue_Key = key,
             Summary = summary, Status = status, Story_Points = story_points,
             Spillover_Reason = reason\<rparr>)))))))"

fun process_issues ::
  "pandas \<Rightarrow> json \<Rightarrow> json \<Rightarrow> json \<Rightarrow> json list \<Rightarrow> row list \<Rightarrow> error + row list" where
  "process_issues P sprint_name sprint_start sprint_end [] records = Inr records"
| "process_issues P sprint_name sprint_start sprint_end (issue # issues) records =
     ebind (make_record P sprint_name sprint_start sprint_end issue) (\<lambda>r.
       process_issues P sprint_name sprint_start sprint_end issues (records @ [r]))"

text \<open>
  One row of \<^verbatim>\<open>summary\<close>: a group key (assignee and reason), the count of issue keys and
  the sum of story points of the group.
\<close>

record summary_row =
  Assignee_key :: json
  Reason_key :: string
  Spilled_Issues :: nat
  Story_Points_total :: json

text \<open>
  The variables a run writes: \<^verbatim>\<open>records\<close>, \<^verbatim>\<open>summary\<close>, and the requests it sent (the
  offsets asked of the sprint list, and per fetched sprint its id and the offsets asked
  of its issue list).
\<close>

record run_state =
  records :: "row list"
  summary :: "summary_row list"
  sprint_requests :: "nat list"
  issue_requests :: "(json \<times> nat list) list"

text \<open>
  \<^verbatim>\<open>for sprint in sprints\<close>. A sprint whose start or end date is falsy (absent,
  \<^verbatim>\<open>None\<close>, empty) is passed over by \<^verbatim>\<open>continue\<close> before anything is fetched.
\<close>

fun process_sprints ::
  "pandas \<Rightarrow> (json \<Rightarrow> server) \<Rightarrow> json list \<Rightarrow> run_state \<Rightarrow> (error + run_state) option" where
  "process_sprints P isrv [] st = Some (Inr st)"
| "process_sprints P isrv (sprint # sprints) st =
     rbind (Some (subscript sprint ''id'')) (\<lambda>sprint_id.
     rbind (Some (subscript sprint ''name'')) (\<lambda>sprint_name.
     rbind (Some (py_get sprint ''startDate'' JNull)) (\<lambda>sprint_start.
     rbind (Some (py_get sprint ''endDate'' JNull)) (\<lambda>sprint_end.
       if \<not> truthy sprint_start \<or> \<not> truthy sprint_end
       then process_sprints P isrv sprints st
       else
         rbind (get_issues_for_sprint (isrv sprint_id)) (\<lambda>fetched.
         rbind (Some (process_issues P sprint_name sprint_start sprint_end
                        (gathered fetched) (records st))) (\<lambda>records'.
           process_sprints P isrv sprints
             (st\<lparr>records := records',
                 issue_requests :=
                   issue_requests st @ [(sprint_id, requested fetched)]\<rparr>)))))))"

section \<open>The summary frame\<close>

text \<open>
  The pandas expressions of lines 105 to 114, on the list of record dicts.
  \<^item> \<^verbatim>\<open>pd.DataFrame([])\<close> has no columns, so selecting \<^verbatim>\<open>"Spillover Reason"\<close> raises
    \<^verbatim>\<open>KeyError\<close> when there are no records.
  \<^item> \<^verbatim>\<open>notna\<close> keeps the rows with a reason.
  \<^item> \<^verbatim>\<open>groupby\<close> hashes the keys: a display name that is a list or a dict raises
    \<^verbatim>\<open>TypeError\<close>. It drops a row whose display name is null. Equal keys share a
    group, and Python equates \<^verbatim>\<open>True\<close> with 1 and \<^verbatim>\<open>False\<close> with 0: a boolean name
    is grouped, and labelled here, as that number. The groups come in ascending order
    of assignee, then reason.
  \<^item> \<^verbatim>\<open>count\<close> counts the issue keys of a group that are not null; \<^verbatim>\<open>sum\<close> is
    \<open>column_sum\<close>.
\<close>

fun hashable :: "json \<Rightarrow> bool" where
  "hashable (JArr xs) = False"
| "hashable (JObj kvs) = False"
| "hashable v = True"

fun group_value :: "json \<Rightarrow> json" where
  "group_value (JBool b) = JNum (of_bool b)"
| "group_value v = v"

fun row_key :: "row \<Rightarrow> (json \<times> string) option" where
  "row_key r =
     (case Spillover_Reason r of
        None \<Rightarrow> None
      | Some reason \<Rightarrow>
          (case Assignee r of JNull \<Rightarrow> None | a \<Rightarrow> Some (group_value a, reason)))"

definition summarise_group ::
  "pandas \<Rightarrow> json list \<Rightarrow> row list \<Rightarrow> json \<times> string \<Rightarrow> error + summary_row" where
  "summarise_group P column spilled k =
     (let members = filter (\<lambda>r. row_key r = Some k) spilled in
      ebind (column_sum P column (map Story_Points members)) (\<lambda>total.
        Inr \<lparr>Assignee_key = fst k, Reason_key = snd k,
              Spilled_Issues = length (filter (\<lambda>r. Issue_Key r \<noteq> JNull) members),
              Story_Points_total = total\<rparr>))"

fun emap :: "('a \<Rightarrow> error + 'b) \<Rightarrow> 'a list \<Rightarrow> error + 'b list" where
  "emap f [] = Inr []"
| "emap f (x # xs) = ebind (f x) (\<lambda>y. ebind (emap f xs) (\<lambda>ys. Inr (y # ys)))"

definition aggregate :: "pandas \<Rightarrow> row list \<Rightarrow> error + summary_row list" where
  "aggregate P recs =
     (if recs = [] then Inl KeyError
      else
        let df_spilled = filter (\<lambda>r. Spillover_Reason r \<noteq> None) recs in
        if \<not> list_all (\<lambda>r. hashable (Assignee r)) df_spilled then Inl TypeError
        else emap (summarise_group P (map Story_Points recs) df_spilled)
               (sort_key (\<lambda>k. (group_rank P (fst k), snd k))
                  (remdups (List.map_filter row_key df_spilled))))"

text \<open>
  \<^verbatim>\<open>analyze_spillovers\<close> up to the summary (the chart and the two files are output
  only). The run starts from whatever the variables held before and overwrites them.
\<close>

definition analyze_spillovers ::
  "pandas \<Rightarrow> server \<Rightarrow> (json \<Rightarrow> server) \<Rightarrow> run_state \<Rightarrow> (error + run_state) option" where
  "analyze_spillovers P ssrv isrv st =
     rbind (get_sprints ssrv) (\<lambda>fetched.
     rbind (process_sprints P isrv (gathered fetched)
              (st\<lparr>records := [], sprint_requests := requested fetched,
                  issue_requests := []\<rparr>)) (\<lambda>st'.
     rbind (Some (aggregate P (records st'))) (\<lambda>rows.
       Some (Inr (st'\<lparr>summary := rows\<rparr>)))))"

declare while_true.simps [code]

section \<open>Concrete payloads\<close>

text \<open>
  A sprint service whose page at offset 0 is empty and not marked last; the page marked
  last sits at every later offset.
\<close>

definition stalled_server :: server where
  "stalled_server k off =
     (if off = 0 then Inr (JObj [(''values'', JArr []), (''isLast'', JBool False)])
      else Inr (JObj [(''values'', JArr []), (''isLast'', JBool True)]))"

text \<open>Three pages of 100, 100 and 40 issues, the third marked last.\<close>

definition three_page_server :: server where
  "three_page_server k off =
     (if off = 0 then
        Inr (JObj [(''issues'', JArr (replicate 100 (JStr ''a''))), (''isLast'', JBool False)])
      else if off = 100 then
        Inr (JObj [(''issues'', JArr (replicate 100 (JStr ''b''))), (''isLast'', JBool False)])
      else if off = 200 then
        Inr (JObj [(''issues'', JArr (replicate 40 (JStr ''c''))), (''isLast'', JBool True)])
      else Inl RequestError)"

text \<open>A service that never sends \<^verbatim>\<open>isLast\<close>: every page holds two records.\<close>

definition bare_page :: "(string \<times> json) list" where
  "bare_page = [(''startAt'', JNum 0), (''values'', JArr [JStr ''r1'', JStr ''r2'']),
                (''issues'', JArr [JStr ''r1'', JStr ''r2''])]"

definition bare_server :: server where
  "bare_server k off = Inr (JObj bare_page)"

section \<open>Well-typed issue records\<close>

text \<open>
  The shape of an issue record on which every read of the classifier succeeds: the
  entries \<^verbatim>\<open>status\<close>, \<^verbatim>\<open>statusCategory\<close> and \<^verbatim>\<open>assignee\<close> are absent or dicts, the
  category name is absent or a string, and the story points are absent, falsy, a number
  or a boolean.
\<close>

fun absent_or_dict :: "json option \<Rightarrow> bool" where
  "absent_or_dict None = True"
| "absent_or_dict (Some (JObj d)) = True"
| "absent_or_dict (Some v) = False"

fun absent_or_str :: "json option \<Rightarrow> bool" where
  "absent_or_str None = True"
| "absent_or_str (Some (JStr n)) = True"
| "absent_or_str (Some v) = False"

definition status_ok :: "(string \<times> json) list \<Rightarrow> bool" where
  "status_ok fs =
     (case map_of fs ''status'' of
        Some (JObj ss) \<Rightarrow>
          (case map_of ss ''statusCategory'' of
             Some (JObj cs) \<Rightarrow> absent_or_str (map_of cs ''name'')
           | cat \<Rightarrow> absent_or_dict cat)
      | st \<Rightarrow> absent_or_dict st)"

fun numeric :: "json \<Rightarrow> bool" where
  "numeric (JNum x) = True"
| "numeric (JBool b) = True"
| "numeric v = False"

definition points_ok :: "(string \<times> json) list \<Rightarrow> bool" where
  "points_ok fs =
     (case map_of fs ''customfield_10016'' of
        None \<Rightarrow> True
      | Some v \<Rightarrow> numeric v \<or> \<not> truthy v)"

text \<open>
  A timestamp entry of an issue is missing (absent or null) or a string. It is
  unreadable when it is missing or the parser rejects the string; its datetime is then
  \<open>NaT\<close>, and otherwise what the parser made of the string.
\<close>

fun time_entry :: "json option \<Rightarrow> bool" where
  "time_entry None = True"
| "time_entry (Some JNull) = True"
| "time_entry (Some (JStr c)) = True"
| "time_entry (Some v) = False"

fun unreadable :: "pandas \<Rightarrow> json option \<Rightarrow> bool" where
  "unreadable P None = True"
| "unreadable P (Some JNull) = True"
| "unreadable P (Some (JStr c)) = (parse_dt P c = None)"
| "unreadable P (Some v) = False"

fun stamp_of :: "pandas \<Rightarrow> json option \<Rightarrow> stamp" where
  "stamp_of P (Some (JStr c)) = (case parse_dt P c of None \<Rightarrow> NaT | Some t \<Rightarrow> t)"
| "stamp_of P x = NaT"

text \<open>
  Two datetimes can be compared: they are not two timestamps of which only one has a
  zone.
\<close>

fun same_zone :: "stamp \<Rightarrow> stamp \<Rightarrow> bool" where
  "same_zone (Timestamp a za) (Timestamp b zb) = (za = zb)"
| "same_zone x y = True"

section \<open>The classification rules as the specification words them\<close>

text \<open>
  Strictly after: \<open>NaT\<close> is after nothing, and nothing is after \<open>NaT\<close>. An estimate of at
  least 8: a number that is 8 or more.
\<close>

fun after :: "stamp \<Rightarrow> stamp \<Rightarrow> bool" where
  "after (Timestamp a za) (Timestamp b zb) = (b < a)"
| "after x y = False"

fun at_least_8 :: "json \<Rightarrow> bool" where
  "at_least_8 (JNum x) = (8 \<le> x)"
| "at_least_8 v = False"

text \<open>
  The six rules in their order, first match wins: rules 5 and 6, rules 3 to 6, and the
  whole of \<open>classify\<close>, on the status category name, the creation time, the story
  points, the update time, the assignee's display name and the sprint window.
\<close>

definition rules_5_to_6 :: "json \<Rightarrow> string" where
  "rules_5_to_6 assignee =
     (if assignee = JStr ''Unassigned'' then ''No assignee during sprint''
      else ''General delay / blocked'')"

definition rules_3_to_6 :: "json \<Rightarrow> stamp \<Rightarrow> json \<Rightarrow> stamp \<Rightarrow> string" where
  "rules_3_to_6 points updated assignee sprint_end =
     (if at_least_8 points then ''Underestimated effort''
      else if after updated sprint_end then ''Carried over work post-sprint''
      else rules_5_to_6 assignee)"

definition classify ::
  "string \<Rightarrow> stamp \<Rightarrow> json \<Rightarrow> stamp \<Rightarrow> json \<Rightarrow> stamp \<Rightarrow> stamp \<Rightarrow> string option" where
  "classify status created points updated assignee sprint_start sprint_end =
     (if map lower_char status = ''done'' then None
      else if after created sprint_start then Some ''Scope added mid-sprint''
      else Some (rules_3_to_6 points updated assignee sprint_end))"

section \<open>Sample issues\<close>

text \<open>The issue with the entry \<open>k: v\<close> put into its \<^verbatim>\<open>fields\<close>.\<close>

definition with_field :: "string \<Rightarrow> json \<Rightarrow> json \<Rightarrow> json" where
  "with_field k v issue =
     (case issue of
        JObj kvs \<Rightarrow>
          (case map_of kvs ''fields'' of
             Some (JObj fs) \<Rightarrow> JObj ((''fields'', JObj ((k, v) # fs)) # kvs)
           | _ \<Rightarrow> issue)
      | _ \<Rightarrow> issue)"

text \<open>
  A pandas whose date parser knows five instants (numbered by day, all with a zone) and
  rejects every other string, which coerces a missing value to \<open>NaT\<close>, ranks numbers
  before strings, and adds numbers exactly, skipping nulls (on the sample's story
  points, 5, 8 and 0.5, float64 addition is exact too); and a sprint from day 1 to
  day 15.
\<close>

fun exact_sum :: "json list \<Rightarrow> error + json" where
  "exact_sum [] = Inr (JNum 0)"
| "exact_sum (v # vs) =
     ebind (exact_sum vs) (\<lambda>total.
       case (v, total) of
         (JNull, t) \<Rightarrow> Inr t
       | (JNum x, JNum y) \<Rightarrow> Inr (JNum (x + y))
       | (JBool b, JNum y) \<Rightarrow> Inr (JNum (of_bool b + y))
       | _ \<Rightarrow> Inl TypeError)"

definition sample_pandas :: pandas where
  "sample_pandas =
     \<lparr>parse_dt = (\<lambda>s.
        if s = ''2023-12-20T08:00:00.000+0000'' then Some (Timestamp (- 12) True)
        else if s = ''2024-01-01T09:00:00.000Z'' then Some (Timestamp 1 True)
        else if s = ''2024-01-08T10:00:00.000+0000'' then Some (Timestamp 8 True)
        else if s = ''2024-01-15T09:00:00.000Z'' then Some (Timestamp 15 True)
        else if s = ''2024-01-16T11:00:00.000+0000'' then Some (Timestamp 16 True)
        else None),
      convert_other = (\<lambda>coerce v.
        if coerce \<and> v = JNull then Inr (Some NaT) else Inl TypeError),
      group_rank = (\<lambda>v.
        case v of JNum x \<Rightarrow> (0, x, []) | JStr n \<Rightarrow> (1, 0, n) | _ \<Rightarrow> (2, 0, [])),
      column_sum = (\<lambda>column values. exact_sum values)\<rparr>"

definition sprint_start0 :: json where
  "sprint_start0 = JStr ''2024-01-01T09:00:00.000Z''"

definition sprint_end0 :: json where
  "sprint_end0 = JStr ''2024-01-15T09:00:00.000Z''"

definition status_entry :: "string \<Rightarrow> string \<times> json" where
  "status_entry n = (''status'', JObj [(''statusCategory'', JObj [(''name'', JStr n)])])"

text \<open>
  Three issues as the tracker delivers them when nobody is assigned
  (\<^verbatim>\<open>"assignee": null\<close>): one done, one created during the sprint, one of 8 points
  created before the sprint.
\<close>

definition done_unassigned_fields :: "(string \<times> json) list" where
  "done_unassigned_fields =
     [status_entry ''Done'', (''assignee'', JNull),
      (''created'', JStr ''2023-12-20T08:00:00.000+0000''),
      (''updated'', JStr ''2024-01-08T10:00:00.000+0000''),
      (''customfield_10016'', JNum 3)]"

definition done_unassigned_issue :: json where
  "done_unassigned_issue =
     JObj [(''key'', JStr ''PRJ-1''), (''fields'', JObj done_unassigned_fields)]"

definition late_unassigned_fields :: "(string \<times> json) list" where
  "late_unassigned_fields =
     [status_entry ''In Progress'', (''assignee'', JNull),
      (''created'', JStr ''2024-01-08T10:00:00.000+0000''),
      (''updated'', JStr ''2024-01-16T11:00:00.000+0000''),
      (''customfield_10016'', JNum 13)]"

definition late_unassigned_issue :: json where
  "late_unassigned_issue =
     JObj [(''key'', JStr ''PRJ-2''), (''fields'', JObj late_unassigned_fields)]"

definition large_unassigned_fields :: "(string \<times> json) list" where
  "large_unassigned_fields =
     [status_entry ''To Do'', (''assignee'', JNull),
      (''created'', JStr ''2023-12-20T08:00:00.000+0000''),
      (''updated'', JStr ''2024-01-08T10:00:00.000+0000''),
      (''customfield_10016'', JNum 8)]"

definition large_unassigned_issue :: json where
  "large_unassigned_issue =
     JObj [(''key'', JStr ''PRJ-3''), (''fields'', JObj large_unassigned_fields)]"

text \<open>An issue whose story-point field holds a string.\<close>

definition text_points_issue :: json where
  "text_points_issue =
     JObj [(''key'', JStr ''PRJ-4''),
           (''fields'', JObj [status_entry ''In Progress'',
              (''assignee'', JObj [(''displayName'', JStr ''Ann'')]),
              (''created'', JStr ''2023-12-20T08:00:00.000+0000''),
              (''updated'', JStr ''2024-01-08T10:00:00.000+0000''),
              (''customfield_10016'', JStr ''8'')])]"

text \<open>An issue with nothing but an update time, and that one unparseable.\<close>

definition sparse_fields :: "(string \<times> json) list" where
  "sparse_fields = [(''updated'', JStr ''n/a'')]"

definition sparse_issue :: "(string \<times> json) list" where
  "sparse_issue = [(''key'', JStr ''PRJ-5''), (''fields'', JObj sparse_fields)]"

section \<open>Rows of a finished run and a sample run\<close>

text \<open>
  A spilled row is counted in a group when neither its display name nor its issue key
  is null.
\<close>

definition keyed :: "row \<Rightarrow> bool" where
  "keyed r = (Spillover_Reason r = None \<or> (Assignee r \<noteq> JNull \<and> Issue_Key r \<noteq> JNull))"

text \<open>
  The same on the issues as they are fetched: an issue is done when the name of its
  status category lower-cases to \<open>done\<close>, and nameless when its assignee's display name
  or its key is null.
\<close>

definition is_done :: "json \<Rightarrow> bool" where
  "is_done issue =
     (ebind (ebind (subscript issue ''fields'') status_of) py_lower = Inr ''done'')"

definition not_done :: "json \<Rightarrow> bool" where
  "not_done issue = (\<not> is_done issue)"

definition nameless :: "json \<Rightarrow> bool" where
  "nameless issue =
     (ebind (subscript issue ''fields'') assignee_of = Inr JNull
      \<or> subscript issue ''key'' = Inr JNull)"

definition row_matches :: "json \<Rightarrow> row \<Rightarrow> bool" where
  "row_matches issue r =
     ((is_done issue \<longleftrightarrow> Spillover_Reason r = None)
      \<and> (nameless issue \<longleftrightarrow> Assignee r = JNull \<or> Issue_Key r = JNull))"

text \<open>
  The issues a run fetches: those the issue service delivers for the sprints that are
  not passed over, in the order of the sprints.
\<close>

fun fetched_issues :: "(json \<Rightarrow> server) \<Rightarrow> json list \<Rightarrow> json list" where
  "fetched_issues isrv [] = []"
| "fetched_issues isrv (sprint # sprints) =
     (case (subscript sprint ''id'', py_get sprint ''startDate'' JNull,
            py_get sprint ''endDate'' JNull) of
        (Inr sprint_id, Inr sprint_start, Inr sprint_end) \<Rightarrow>
          if truthy sprint_start \<and> truthy sprint_end
          then (case get_issues_for_sprint (isrv sprint_id) of
                  Some (Inr fetched) \<Rightarrow> gathered fetched
                | _ \<Rightarrow> [])
          else []
      | _ \<Rightarrow> [])
     @ fetched_issues isrv sprints"

text \<open>
  A board with two closed sprints, the first without an end date, the second with five
  issues; the state before a run; and the state the run is expected to leave.
\<close>

definition sample_issues :: "json list" where
  "sample_issues =
     [JObj [(''key'', JStr ''P-1''),
        (''fields'', JObj [status_entry ''Done'',
           (''created'', JStr ''2023-12-20T08:00:00.000+0000''),
           (''updated'', JStr ''2024-01-08T10:00:00.000+0000''),
           (''assignee'', JObj [(''displayName'', JStr ''Ann'')]),
           (''customfield_10016'', JNum 3)])],
      JObj [(''key'', JStr ''P-2''),
        (''fields'', JObj [status_entry ''In Progress'',
           (''created'', JStr ''2024-01-08T10:00:00.000+0000''),
           (''updated'', JStr ''2024-01-08T10:00:00.000+0000''),
           (''assignee'', JObj [(''displayName'', JStr ''Ann'')]),
           (''customfield_10016'', JNum 5)])],
      JObj [(''key'', JStr ''P-3''),
        (''fields'', JObj [status_entry ''To Do'',
           (''created'', JStr ''2023-12-20T08:00:00.000+0000''),
           (''updated'', JStr ''2024-01-08T10:00:00.000+0000''),
           (''assignee'', JObj [(''displayName'', JStr ''Bob'')]),
           (''customfield_10016'', JNum 8)])],
      JObj [(''key'', JStr ''P-4''),
        (''fields'', JObj [status_entry ''To Do'',
           (''created'', JStr ''2024-01-08T10:00:00.000+0000''),
           (''updated'', JStr ''2024-01-16T11:00:00.000+0000''),
           (''assignee'', JObj [(''displayName'', JStr ''Ann'')]),
           (''customfield_10016'', JNull)])],
      JObj [(''key'', JStr ''P-5''),
        (''fields'', JObj [status_entry ''To Do'',
           (''created'', JStr ''2023-12-20T08:00:00.000+0000''),
           (''updated'', JStr ''2024-01-16T11:00:00.000+0000''),
           (''customfield_10016'', JNum (1 / 2))])]]"

definition dateless_sprint :: "(string \<times> json) list" where
  "dateless_sprint =
     [(''id'', JNum 8), (''name'', JStr ''Sprint 8''), (''state'', JStr ''closed''),
      (''startDate'', JStr ''2024-01-15T09:00:00.000Z'')]"

definition dated_sprint :: "(string \<times> json) list" where
  "dated_sprint =
     [(''id'', JNum 7), (''name'', JStr ''Sprint 7''), (''state'', JStr ''closed''),
      (''startDate'', JStr ''2024-01-01T09:00:00.000Z''),
      (''endDate'', JStr ''2024-01-15T09:00:00.000Z'')]"

definition sample_sprint_server :: server where
  "sample_sprint_server k off =
     (if off = 0
      then Inr (JObj [(''values'', JArr [JObj dateless_sprint, JObj dated_sprint]),
                      (''isLast'', JBool True)])
      else Inl RequestError)"

definition sample_issue_server :: "json \<Rightarrow> server" where
  "sample_issue_server sprint_id k off =
     (if sprint_id = JNum 7 \<and> off = 0
      then Inr (JObj [(''issues'', JArr sample_issues), (''isLast'', JBool True)])
      else Inl RequestError)"

definition blank_state :: run_state where
  "blank_state = \<lparr>records = [], summary = [], sprint_requests = [], issue_requests = []\<rparr>"

definition sample_row :: "string \<Rightarrow> string \<Rightarrow> string \<Rightarrow> json \<Rightarrow> string option \<Rightarrow> row" where
  "sample_row assignee key status points reason =
     \<lparr>Sprint = JStr ''Sprint 7'', Assignee = JStr assignee, Issue_Key = JStr key,
      Summary = JStr [], Status = JStr status, Story_Points = points,
      Spillover_Reason = reason\<rparr>"

definition sample_outcome :: run_state where
  "sample_outcome =
     \<lparr>records =
        [sample_row ''Ann'' ''P-1'' ''Done'' (JNum 3) None,
         sample_row ''Ann'' ''P-2'' ''In Progress'' (JNum 5) (Some ''Scope added mid-sprint''),
         sample_row ''Bob'' ''P-3'' ''To Do'' (JNum 8) (Some ''Underestimated effort''),
         sample_row ''Ann'' ''P-4'' ''To Do'' JNull (Some ''Scope added mid-sprint''),
         sample_row ''Unassigned'' ''P-5'' ''To Do'' (JNum (1 / 2))
           (Some ''Carried over work post-sprint'')],
      summary =
        [\<lparr>Assignee_key = JStr ''Ann'', Reason_key = ''Scope added mid-sprint'',
          Spilled_Issues = 2, Story_Points_total = JNum 5\<rparr>,
         \<lparr>Assignee_key = JStr ''Bob'', Reason_key = ''Underestimated effort'',
          Spilled_Issues = 1, Story_Points_total = JNum 8\<rparr>,
         \<lparr>Assignee_key = JStr ''Unassigned'',
          Reason_key = ''Carried over work post-sprint'',
          Spilled_Issues = 1, Story_Points_total = JNum (1 / 2)\<rparr>],
      sprint_requests = [0],
      issue_requests = [(JNum 7, [0])]\<rparr>"

text \<open>
  A board with one sprint of two issues that are not done; the assignee of the second
  has a null display name.
\<close>

definition nameless_issues :: "json list" where
  "nameless_issues =
     [JObj [(''key'', JStr ''P-2''),
        (''fields'', JObj [status_entry ''In Progress'',
           (''created'', JStr ''2024-01-08T10:00:00.000+0000''),
           (''updated'', JStr ''2024-01-08T10:00:00.000+0000''),
           (''assignee'', JObj [(''displayName'', JStr ''Ann'')]),
           (''customfield_10016'', JNum 5)])],
      JObj [(''key'', JStr ''P-6''),
        (''fields'', JObj [status_entry ''To Do'',
           (''created'', JStr ''2024-01-08T10:00:00.000+0000''),
           (''updated'', JStr ''2024-01-08T10:00:00.000+0000''),
           (''assignee'', JObj [(''accountId'', JStr ''5b10''), (''displayName'', JNull)]),
           (''customfield_10016'', JNum 2)])]]"

definition single_sprint_server :: server where
  "single_sprint_server k off =
     (if off = 0
      then Inr (JObj [(''values'', JArr [JObj dated_sprint]), (''isLast'', JBool True)])
      else Inl RequestError)"

definition nameless_issue_server :: "json \<Rightarrow> server" where
  "nameless_issue_server sprint_id k off =
     (if sprint_id = JNum 7 \<and> off = 0
      then Inr (JObj [(''issues'', JArr nameless_issues), (''isLast'', JBool True)])
      else Inl RequestError)"

definition nameless_outcome :: run_state where
  "nameless_outcome =
     \<lparr>records =
        [sample_row ''Ann'' ''P-2'' ''In Progress'' (JNum 5) (Some ''Scope added mid-sprint''),
         (sample_row [] ''P-6'' ''To Do'' (JNum 2) (Some ''Scope added mid-sprint''))
           \<lparr>Assignee := JNull\<rparr>],
      summary =
        [\<lparr>Assignee_key = JStr ''Ann'', Reason_key = ''Scope added mid-sprint'',
          Spilled_Issues = 1, Story_Points_total = JNum 5\<rparr>],
      sprint_requests = [0],
      issue_requests = [(JNum 7, [0])]\<rparr>"

section \<open>Properties of the fetch loops\<close>

lemma while_true_break:
  "body st = Inr (Inr st') \<Longrightarrow> while_true body st = Some (Inr st')"
  by (subst while_true.simps) simp

lemma while_true_again:
  "body st = Inr (Inl st') \<Longrightarrow> while_true body st = while_true body st'"
  by (subst while_true.simps) simp

lemma while_true_raise:
  "body st = Inl e \<Longrightarrow> while_true body st = Some (Inl e)"
  by (subst while_true.simps) simp

text \<open>What one pass does with a page that is a dict holding a list of records.\<close>

lemma get_sprints_body_page:
  assumes "srv (length (requested st)) (start_at st) = Inr (JObj kvs)"
    and "map_of kvs ''values'' = Some (JArr xs)"
  shows "get_sprints_body srv st =
     (if (case map_of kvs ''isLast'' of None \<Rightarrow> True | Some l \<Rightarrow> truthy l)
      then Inr (Inr \<lparr>gathered = gathered st @ xs, start_at = start_at st,
                       requested = requested st @ [start_at st]\<rparr>)
      else Inr (Inl \<lparr>gathered = gathered st @ xs, start_at = start_at st + length xs,
                       requested = requested st @ [start_at st]\<rparr>))"
  using assms by (simp add: get_sprints_body_def ebind_def split: option.split)

lemma get_issues_body_page:
  assumes "srv (length (requested st)) (start_at st) = Inr (JObj kvs)"
    and "map_of kvs ''issues'' = Some (JArr xs)"
  shows "get_issues_body srv st =
     (if (case map_of kvs ''isLast'' of None \<Rightarrow> True | Some l \<Rightarrow> truthy l) \<or> xs = []
      then Inr (Inr \<lparr>gathered = gathered st @ xs, start_at = start_at st,
                       requested = requested st @ [start_at st]\<rparr>)
      else Inr (Inl \<lparr>gathered = gathered st @ xs, start_at = start_at st + length xs,
                       requested = requested st @ [start_at st]\<rparr>))"
  using assms by (simp add: get_issues_body_def ebind_def split: option.split)

text \<open>
  The issue loop stops at an empty page wherever it is in its run, whatever the page
  says about \<^verbatim>\<open>isLast\<close>.
\<close>

lemma get_issues_stops_at_empty_page:
  assumes "srv (length (requested st)) (start_at st) = Inr (JObj kvs)"
    and "map_of kvs ''issues'' = Some (JArr [])"
  shows "while_true (get_issues_body srv) st =
           Some (Inr \<lparr>gathered = gathered st, start_at = start_at st,
                       requested = requested st @ [start_at st]\<rparr>)"
  using get_issues_body_page[of srv st kvs "[]"] assms by (simp add: while_true_break)

text \<open>
  The sprint loop has no such test. On the stalled service a pass changes nothing but
  the list of requests, so the next pass asks for offset 0 again.
\<close>

lemma get_sprints_body_stalled:
  "start_at st = 0 \<Longrightarrow>
   get_sprints_body stalled_server st =
     Inr (Inl (st\<lparr>requested := requested st @ [0]\<rparr>))"
  by (simp add: get_sprints_body_def stalled_server_def ebind_def)

lemma while_true_stalled:
  assumes "while_true body st = Some r"
  shows "\<not> (body = get_sprints_body stalled_server \<and> start_at st = 0)"
proof (rule while_true.raw_induct
    [where P = "\<lambda>b s y. \<not> (b = get_sprints_body stalled_server \<and> start_at s = 0)",
      OF _ assms])
  fix w b s y
  assume IH: "\<And>b s y. w b s = Some y \<Longrightarrow>
                \<not> (b = get_sprints_body stalled_server \<and> start_at s = 0)"
    and unfolded: "(case b s of Inl e \<Rightarrow> Some (Inl e) | Inr (Inl again) \<Rightarrow> w b again
       | Inr (Inr done) \<Rightarrow> Some (Inr done)) = Some y"
  show "\<not> (b = get_sprints_body stalled_server \<and> start_at s = 0)"
  proof
    assume b: "b = get_sprints_body stalled_server \<and> start_at s = 0"
    with unfolded have "w b (s\<lparr>requested := requested s @ [0]\<rparr>) = Some y"
      by (simp add: get_sprints_body_stalled)
    from IH[OF this] b show False by simp
  qed
qed

text \<open>
  C4. Both fetch loops are claimed to end at a page without records. The issue loop
  does; the sprint loop does not: on a service whose first page is empty and not marked
  last, \<^verbatim>\<open>get_sprints\<close> never returns, while \<^verbatim>\<open>get_issues_for_sprint\<close> on a service with
  the same kind of first page returns after one request.
\<close>

theorem get_sprints_stalls_on_empty_page:
  "get_sprints stalled_server = None
   \<and> get_issues_for_sprint
        (\<lambda>k off. Inr (JObj [(''issues'', JArr []), (''isLast'', JBool False)])) =
       Some (Inr \<lparr>gathered = [], start_at = 0, requested = [0]\<rparr>)"
proof
  show "get_sprints stalled_server = None"
  proof (cases "get_sprints stalled_server")
    case (Some r)
    then show ?thesis
      using while_true_stalled[of "get_sprints_body stalled_server" fetch_init r]
      by (simp add: get_sprints_def fetch_init_def)
  qed simp
next
  show "get_issues_for_sprint
          (\<lambda>k off. Inr (JObj [(''issues'', JArr []), (''isLast'', JBool False)])) =
        Some (Inr \<lparr>gathered = [], start_at = 0, requested = [0]\<rparr>)"
    unfolding get_issues_for_sprint_def
    by (subst get_issues_stops_at_empty_page
          [where kvs = "[(''issues'', JArr []), (''isLast'', JBool False)]"])
       (simp_all add: fetch_init_def)
qed

text \<open>
  C5. A service that delivers pages of 100, 100 and 40 issues, only the third marked
  last: the fetch returns the 240 records in order and sends exactly three requests,
  at the offsets 0, 100 and 200 (each the number of records received before it).
\<close>

theorem three_pages_fetched:
  assumes len: "length p1 = 100" "length p2 = 100" "length p3 = 40"
    and r1: "srv 0 0 = Inr (JObj kv1)" "map_of kv1 ''issues'' = Some (JArr p1)"
            "map_of kv1 ''isLast'' = Some (JBool False)"
    and r2: "srv 1 100 = Inr (JObj kv2)" "map_of kv2 ''issues'' = Some (JArr p2)"
            "map_of kv2 ''isLast'' = Some (JBool False)"
    and r3: "srv 2 200 = Inr (JObj kv3)" "map_of kv3 ''issues'' = Some (JArr p3)"
            "map_of kv3 ''isLast'' = Some (JBool True)"
  shows "get_issues_for_sprint srv =
           Some (Inr \<lparr>gathered = p1 @ p2 @ p3, start_at = 200, requested = [0, 100, 200]\<rparr>)
         \<and> length (p1 @ p2 @ p3) = 240"
proof -
  let ?s1 = "\<lparr>gathered = p1, start_at = 100, requested = [0]\<rparr>"
  let ?s2 = "\<lparr>gathered = p1 @ p2, start_at = 200, requested = [0, 100]\<rparr>"
  let ?s3 = "\<lparr>gathered = p1 @ p2 @ p3, start_at = 200, requested = [0, 100, 200]\<rparr>"
  have ne: "p1 \<noteq> []" "p2 \<noteq> []" using len by auto
  have b1: "get_issues_body srv fetch_init = Inr (Inl ?s1)"
    using get_issues_body_page[of srv fetch_init kv1 p1] r1 len ne
    by (simp add: fetch_init_def)
  have b2: "get_issues_body srv ?s1 = Inr (Inl ?s2)"
    using get_issues_body_page[of srv ?s1 kv2 p2] r2 len ne by simp
  have b3: "get_issues_body srv ?s2 = Inr (Inr ?s3)"
    using get_issues_body_page[of srv ?s2 kv3 p3] r3 len by (simp add: numeral_2_eq_2)
  have "get_issues_for_sprint srv = Some (Inr ?s3)"
    unfolding get_issues_for_sprint_def
    by (simp add: while_true_again[of "get_issues_body srv", OF b1]
        while_true_again[of "get_issues_body srv", OF b2]
        while_true_break[of "get_issues_body srv", OF b3])
  then show ?thesis using len by simp
qed

theorem three_pages_fetched_witness:
  "get_issues_for_sprint three_page_server =
     Some (Inr \<lparr>gathered = replicate 100 (JStr ''a'') @ replicate 100 (JStr ''b'')
                              @ replicate 40 (JStr ''c''),
                 start_at = 200, requested = [0, 100, 200]\<rparr>)"
  using three_pages_fetched[of "replicate 100 (JStr ''a'')" "replicate 100 (JStr ''b'')"
      "replicate 40 (JStr ''c'')" three_page_server
      "[(''issues'', JArr (replicate 100 (JStr ''a''))), (''isLast'', JBool False)]"
      "[(''issues'', JArr (replicate 100 (JStr ''b''))), (''isLast'', JBool False)]"
      "[(''issues'', JArr (replicate 40 (JStr ''c''))), (''isLast'', JBool True)]"]
  by (simp add: three_page_server_def)

text \<open>
  C10. A page without the key \<^verbatim>\<open>isLast\<close> is taken to be the last one by both loops:
  wherever the loop is in its run, it appends the page's records and returns, and the
  request for that page is the last request it sends.
\<close>

theorem page_without_isLast_is_last:
  assumes "srv (length (requested st)) (start_at st) = Inr (JObj kvs)"
    and "map_of kvs ''isLast'' = None"
  shows "(map_of kvs ''values'' = Some (JArr xs) \<longrightarrow>
            while_true (get_sprints_body srv) st =
              Some (Inr \<lparr>gathered = gathered st @ xs, start_at = start_at st,
                          requested = requested st @ [start_at st]\<rparr>))
       \<and> (map_of kvs ''issues'' = Some (JArr xs) \<longrightarrow>
            while_true (get_issues_body srv) st =
              Some (Inr \<lparr>gathered = gathered st @ xs, start_at = start_at st,
                          requested = requested st @ [start_at st]\<rparr>))"
  using assms
  by (auto simp: get_sprints_body_page get_issues_body_page intro!: while_true_break)

theorem page_without_isLast_is_last_witness:
  "get_sprints bare_server =
     Some (Inr \<lparr>gathered = [JStr ''r1'', JStr ''r2''], start_at = 0, requested = [0]\<rparr>)
   \<and> get_issues_for_sprint bare_server =
     Some (Inr \<lparr>gathered = [JStr ''r1'', JStr ''r2''], start_at = 0, requested = [0]\<rparr>)"
  using page_without_isLast_is_last[of bare_server fetch_init bare_page
      "[JStr ''r1'', JStr ''r2'']"]
  by (simp add: bare_server_def bare_page_def fetch_init_def get_sprints_def
      get_issues_for_sprint_def)

section \<open>Properties of the classifier\<close>

lemma ebind_Inr: "ebind (Inr x) f = f x"
  by (simp add: ebind_def)

lemma ebind_Inl: "ebind (Inl e) f = Inl e"
  by (simp add: ebind_def)

lemma py_get_dict: "\<exists>v. py_get (JObj d) k dflt = Inr v"
  by (cases "map_of d k") simp_all

lemma to_datetime_coerce_str:
  "to_datetime P True (JStr c) = Inr (Some (case parse_dt P c of None \<Rightarrow> NaT | Some t \<Rightarrow> t))"
  by (simp split: option.split)

subsection \<open>The reads succeed on a well-typed record\<close>

lemma name_read:
  "absent_or_str (map_of cs ''name'') \<Longrightarrow>
   \<exists>n. py_get (JObj cs) ''name'' (JStr []) = Inr (JStr n)"
  by (cases "map_of cs ''name''" rule: absent_or_str.cases) simp_all

lemma category_read:
  assumes "case map_of ss ''statusCategory'' of
             Some (JObj cs) \<Rightarrow> absent_or_str (map_of cs ''name'')
           | cat \<Rightarrow> absent_or_dict cat"
  shows "\<exists>n. ebind (py_get (JObj ss) ''statusCategory'' (JObj [])) (\<lambda>cat.
               py_get cat ''name'' (JStr [])) = Inr (JStr n)"
proof (cases "map_of ss ''statusCategory''")
  case None
  then show ?thesis by (simp add: ebind_def)
next
  case (Some v)
  show ?thesis
  proof (cases v)
    case (JObj cs)
    with Some assms name_read[of cs] show ?thesis by (simp add: ebind_def)
  qed (use Some assms in simp_all)
qed

lemma status_read:
  assumes "status_ok fs"
  shows "\<exists>n. status_of (JObj fs) = Inr (JStr n)"
proof (cases "map_of fs ''status''")
  case None
  then show ?thesis by (simp add: status_of_def ebind_def)
next
  case (Some v)
  show ?thesis
  proof (cases v)
    case (JObj ss)
    with Some assms category_read[of ss] show ?thesis
      by (simp add: status_of_def status_ok_def ebind_def)
  qed (use Some assms in \<open>simp_all add: status_ok_def\<close>)
qed

lemma assignee_read:
  assumes "absent_or_dict (map_of fs ''assignee'')"
  shows "\<exists>a. assignee_of (JObj fs) = Inr a"
proof (cases "map_of fs ''assignee''")
  case None
  then show ?thesis by (simp add: assignee_of_def ebind_def)
next
  case (Some v)
  show ?thesis
  proof (cases v)
    case (JObj d)
    with Some show ?thesis
      by (cases "map_of d ''displayName''") (simp_all add: assignee_of_def ebind_def)
  qed (use Some assms in simp_all)
qed

lemma points_read_at_least_8:
  assumes "points_ok fs"
  shows "\<exists>sp. py_get (JObj fs) ''customfield_10016'' (JNum 0) = Inr sp
           \<and> (if truthy sp then py_ge sp 8 else Inr False) = Inr (at_least_8 sp)"
proof (cases "map_of fs ''customfield_10016''")
  case None
  then show ?thesis by simp
next
  case (Some v)
  with assms have "numeric v \<or> \<not> truthy v" by (simp add: points_ok_def)
  then have "(if truthy v then py_ge v 8 else Inr False) = Inr (at_least_8 v)"
    by (cases v) auto
  with Some show ?thesis by simp
qed

lemma time_read:
  assumes "time_entry (map_of fs k)" and "convert_other P True JNull = Inr (Some NaT)"
  shows "\<exists>v. py_get (JObj fs) k JNull = Inr v
           \<and> to_datetime P True v = Inr (Some (stamp_of P (map_of fs k)))"
proof (cases "map_of fs k")
  case None
  with assms(2) show ?thesis by simp
next
  case (Some v)
  with assms show ?thesis by (cases v) (simp_all split: option.split)
qed

lemma unreadable_stamp: "unreadable P x \<Longrightarrow> stamp_of P x = NaT"
  by (cases "(P, x)" rule: unreadable.cases) simp_all

lemma py_gt_after: "same_zone x s \<Longrightarrow> py_gt (Some x) (Some s) = Inr (after x s)"
  by (cases x; cases s) simp_all

lemma py_eq_str_iff: "py_eq_str a t \<longleftrightarrow> a = JStr t"
  by (cases a) auto

subsection \<open>The classifier depends on the record through its reads only\<close>

lemma get_spillover_reason_reads:
  assumes "map_of kvs ''fields'' = Some (JObj fs)"
    and "map_of kvs' ''fields'' = Some (JObj fs')"
    and "status_of (JObj fs') = status_of (JObj fs)"
    and "assignee_of (JObj fs') = assignee_of (JObj fs)"
    and "map_of fs' ''created'' = map_of fs ''created''"
    and "map_of fs' ''updated'' = map_of fs ''updated''"
    and "py_get (JObj fs') ''customfield_10016'' (JNum 0) =
         py_get (JObj fs) ''customfield_10016'' (JNum 0)"
  shows "get_spillover_reason P (JObj kvs') ss se = get_spillover_reason P (JObj kvs) ss se"
proof -
  have "py_get (JObj fs') ''created'' JNull = py_get (JObj fs) ''created'' JNull"
    and "py_get (JObj fs') ''updated'' JNull = py_get (JObj fs) ''updated'' JNull"
    using assms(5,6) by simp_all
  with assms(1,2,3,4,7) show ?thesis
    unfolding get_spillover_reason_def by (simp add: ebind_Inr del: py_get.simps)
qed

lemma default_points:
  assumes "map_of kvs ''fields'' = Some (JObj fs)" and "map_of fs ''customfield_10016'' = None"
  shows "get_spillover_reason P (with_field ''customfield_10016'' (JNum 0) (JObj kvs)) ss se =
         get_spillover_reason P (JObj kvs) ss se"
  unfolding with_field_def using assms
  by (simp, intro get_spillover_reason_reads
        [where fs = fs and fs' = "(''customfield_10016'', JNum 0) # fs"])
     (simp_all add: status_of_def assignee_of_def)

lemma default_assignee:
  assumes "map_of kvs ''fields'' = Some (JObj fs)" and "map_of fs ''assignee'' = None"
  shows "get_spillover_reason P
           (with_field ''assignee'' (JObj [(''displayName'', JStr ''Unassigned'')]) (JObj kvs))
           ss se =
         get_spillover_reason P (JObj kvs) ss se"
  unfolding with_field_def using assms
  by (simp, intro get_spillover_reason_reads[where fs = fs
         and fs' = "(''assignee'', JObj [(''displayName'', JStr ''Unassigned'')]) # fs"])
     (simp_all add: status_of_def assignee_of_def ebind_def)

lemma default_status:
  assumes "map_of kvs ''fields'' = Some (JObj fs)" and "map_of fs ''status'' = None"
  shows "get_spillover_reason P
           (with_field ''status'' (JObj [(''statusCategory'', JObj [(''name'', JStr [])])])
              (JObj kvs)) ss se =
         get_spillover_reason P (JObj kvs) ss se"
  unfolding with_field_def using assms
  by (simp, intro get_spillover_reason_reads[where fs = fs
         and fs' = "(''status'', JObj [(''statusCategory'', JObj [(''name'', JStr [])])]) # fs"])
     (simp_all add: status_of_def assignee_of_def ebind_def)

subsection \<open>The rule cascade\<close>

text \<open>
  When the reads succeed and the two comparisons do not raise, the result is the
  cascade of the six rules in the order of the source.
\<close>

lemma get_spillover_reason_cascade:
  assumes f: "map_of kvs ''fields'' = Some (JObj fs)"
    and n: "status_of (JObj fs) = Inr (JStr n)"
    and a: "assignee_of (JObj fs) = Inr a"
    and sp: "py_get (JObj fs) ''customfield_10016'' (JNum 0) = Inr sp"
    and b: "(if truthy sp then py_ge sp 8 else Inr False) = Inr b"
    and c: "py_get (JObj fs) ''created'' JNull = Inr cv" "to_datetime P True cv = Inr created"
    and u: "py_get (JObj fs) ''updated'' JNull = Inr uv" "to_datetime P True uv = Inr updated"
    and s: "to_datetime P False sprint_start = Inr s"
    and e: "to_datetime P False sprint_end = Inr e"
    and b1: "py_gt created s = Inr b1"
    and b2: "py_gt updated e = Inr b2"
  shows "get_spillover_reason P (JObj kvs) sprint_start sprint_end =
          (if map lower_char n = ''done'' then Inr None
           else if b1 then Inr (Some ''Scope added mid-sprint'')
           else if b then Inr (Some ''Underestimated effort'')
           else if b2 then Inr (Some ''Carried over work post-sprint'')
           else if py_eq_str a ''Unassigned'' then Inr (Some ''No assignee during sprint'')
           else Inr (Some ''General delay / blocked''))"
  unfolding get_spillover_reason_def
  using f n a sp b c u s e b1 b2
  by (simp add: ebind_def del: to_datetime.simps py_get.simps)

text \<open>
  C1 (as amended). Take an issue record whose \<^verbatim>\<open>fields\<close> are well typed (status,
  statusCategory and assignee each absent or a dict, the category name absent or a
  string, the story points absent, falsy, a number or a boolean) and whose two
  timestamps are missing or strings; a pandas that coerces a missing value to \<open>NaT\<close>;
  and sprint bounds that convert to datetimes comparable with the issue's. Then the
  classifier does not raise: its reads succeed and it returns what the six rules give
  on the values read. A created time that is missing or unparseable is no match for
  rule 2, and the result is that of rules 3 to 6; an updated time that is missing or
  unparseable is no match for rule 4, and the result is that of the rules around it.
  An absent \<^verbatim>\<open>status\<close>, \<^verbatim>\<open>assignee\<close> or story-point entry classifies exactly as the
  default (the empty category name, the display name \<open>Unassigned\<close>, 0 points) put in
  its place.
\<close>

theorem classification_of_well_typed_issue:
  assumes f: "map_of kvs ''fields'' = Some (JObj fs)"
    and ok: "status_ok fs" "absent_or_dict (map_of fs ''assignee'')" "points_ok fs"
    and t: "time_entry (map_of fs ''created'')" "time_entry (map_of fs ''updated'')"
    and lib: "convert_other P True JNull = Inr (Some NaT)"
    and s: "to_datetime P False sprint_start = Inr (Some s)"
    and e: "to_datetime P False sprint_end = Inr (Some e)"
    and z: "same_zone (stamp_of P (map_of fs ''created'')) s"
           "same_zone (stamp_of P (map_of fs ''updated'')) e"
  shows "(\<exists>n a sp.
            status_of (JObj fs) = Inr (JStr n) \<and> assignee_of (JObj fs) = Inr a
          \<and> py_get (JObj fs) ''customfield_10016'' (JNum 0) = Inr sp
          \<and> get_spillover_reason P (JObj kvs) sprint_start sprint_end =
              Inr (classify n (stamp_of P (map_of fs ''created'')) sp
                     (stamp_of P (map_of fs ''updated'')) a s e)
          \<and> (unreadable P (map_of fs ''created'') \<longrightarrow>
                get_spillover_reason P (JObj kvs) sprint_start sprint_end =
                  Inr (if map lower_char n = ''done'' then None
                       else Some (rules_3_to_6 sp (stamp_of P (map_of fs ''updated'')) a e)))
          \<and> (unreadable P (map_of fs ''updated'') \<longrightarrow>
                get_spillover_reason P (JObj kvs) sprint_start sprint_end =
                  Inr (if map lower_char n = ''done'' then None
                       else if after (stamp_of P (map_of fs ''created'')) s
                         then Some ''Scope added mid-sprint''
                       else if at_least_8 sp then Some ''Underestimated effort''
                       else Some (rules_5_to_6 a))))
       \<and> (map_of fs ''status'' = None \<longrightarrow>
            get_spillover_reason P
              (with_field ''status'' (JObj [(''statusCategory'', JObj [(''name'', JStr [])])])
                 (JObj kvs)) sprint_start sprint_end =
            get_spillover_reason P (JObj kvs) sprint_start sprint_end)
       \<and> (map_of fs ''assignee'' = None \<longrightarrow>
            get_spillover_reason P
              (with_field ''assignee'' (JObj [(''displayName'', JStr ''Unassigned'')])
                 (JObj kvs)) sprint_start sprint_end =
            get_spillover_reason P (JObj kvs) sprint_start sprint_end)
       \<and> (map_of fs ''customfield_10016'' = None \<longrightarrow>
            get_spillover_reason P (with_field ''customfield_10016'' (JNum 0) (JObj kvs))
              sprint_start sprint_end =
            get_spillover_reason P (JObj kvs) sprint_start sprint_end)"
proof -
  let ?created = "stamp_of P (map_of fs ''created'')"
  let ?updated = "stamp_of P (map_of fs ''updated'')"
  from status_read[OF ok(1)] obtain n where n: "status_of (JObj fs) = Inr (JStr n)" ..
  from assignee_read[OF ok(2)] obtain a where a: "assignee_of (JObj fs) = Inr a" ..
  from points_read_at_least_8[OF ok(3)] obtain sp where
    sp: "py_get (JObj fs) ''customfield_10016'' (JNum 0) = Inr sp"
    and b: "(if truthy sp then py_ge sp 8 else Inr False) = Inr (at_least_8 sp)"
    by (elim exE conjE)
  from time_read[OF t(1) lib] obtain cv where
    c: "py_get (JObj fs) ''created'' JNull = Inr cv" "to_datetime P True cv = Inr (Some ?created)"
    by (elim exE conjE)
  from time_read[OF t(2) lib] obtain uv where
    u: "py_get (JObj fs) ''updated'' JNull = Inr uv" "to_datetime P True uv = Inr (Some ?updated)"
    by (elim exE conjE)
  note cascade = get_spillover_reason_cascade
    [OF f n a sp b c u s e py_gt_after[OF z(1)] py_gt_after[OF z(2)]]
  have result: "get_spillover_reason P (JObj kvs) sprint_start sprint_end =
                  Inr (classify n ?created sp ?updated a s e)"
    unfolding cascade
    by (simp add: classify_def rules_3_to_6_def rules_5_to_6_def py_eq_str_iff)
  have no_created: "get_spillover_reason P (JObj kvs) sprint_start sprint_end =
          Inr (if map lower_char n = ''done'' then None
               else Some (rules_3_to_6 sp ?updated a e))"
    if "unreadable P (map_of fs ''created'')"
    unfolding result using unreadable_stamp[OF that] by (simp add: classify_def)
  have no_updated: "get_spillover_reason P (JObj kvs) sprint_start sprint_end =
          Inr (if map lower_char n = ''done'' then None
               else if after ?created s then Some ''Scope added mid-sprint''
               else if at_least_8 sp then Some ''Underestimated effort''
               else Some (rules_5_to_6 a))"
    if "unreadable P (map_of fs ''updated'')"
    unfolding result using unreadable_stamp[OF that]
    by (simp add: classify_def rules_3_to_6_def)
  from n a sp result no_created no_updated
  have "\<exists>n a sp.
            status_of (JObj fs) = Inr (JStr n) \<and> assignee_of (JObj fs) = Inr a
          \<and> py_get (JObj fs) ''customfield_10016'' (JNum 0) = Inr sp
          \<and> get_spillover_reason P (JObj kvs) sprint_start sprint_end =
              Inr (classify n ?created sp ?updated a s e)
          \<and> (unreadable P (map_of fs ''created'') \<longrightarrow>
                get_spillover_reason P (JObj kvs) sprint_start sprint_end =
                  Inr (if map lower_char n = ''done'' then None
                       else Some (rules_3_to_6 sp ?updated a e)))
          \<and> (unreadable P (map_of fs ''updated'') \<longrightarrow>
                get_spillover_reason P (JObj kvs) sprint_start sprint_end =
                  Inr (if map lower_char n = ''done'' then None
                       else if after ?created s then Some ''Scope added mid-sprint''
                       else if at_least_8 sp then Some ''Underestimated effort''
                       else Some (rules_5_to_6 a)))"
    by (intro exI[of _ n] exI[of _ a] exI[of _ sp] conjI impI)
  then show ?thesis
    using default_status[OF f] default_assignee[OF f] default_points[OF f] by blast
qed

theorem classification_of_well_typed_issue_witness:
  "get_spillover_reason sample_pandas (JObj sparse_issue) sprint_start0 sprint_end0 =
     Inr (Some ''No assignee during sprint'')"
proof -
  have f: "map_of sparse_issue ''fields'' = Some (JObj sparse_fields)"
    by (simp add: sparse_issue_def)
  have ok: "status_ok sparse_fields" "absent_or_dict (map_of sparse_fields ''assignee'')"
    "points_ok sparse_fields"
    by (simp_all add: sparse_fields_def status_ok_def points_ok_def)
  have t: "time_entry (map_of sparse_fields ''created'')"
    "time_entry (map_of sparse_fields ''updated'')"
    by (simp_all add: sparse_fields_def)
  have lib: "convert_other sample_pandas True JNull = Inr (Some NaT)"
    by (simp add: sample_pandas_def)
  have s: "to_datetime sample_pandas False sprint_start0 = Inr (Some (Timestamp 1 True))"
    and e: "to_datetime sample_pandas False sprint_end0 = Inr (Some (Timestamp 15 True))"
    by (simp_all add: sample_pandas_def sprint_start0_def sprint_end0_def)
  have u: "stamp_of sample_pandas (map_of sparse_fields ''updated'') = NaT"
    by (simp add: sparse_fields_def sample_pandas_def)
  have z: "same_zone (stamp_of sample_pandas (map_of sparse_fields ''created'')) (Timestamp 1 True)"
    "same_zone (stamp_of sample_pandas (map_of sparse_fields ''updated'')) (Timestamp 15 True)"
    unfolding u by (simp_all add: sparse_fields_def)
  have missing: "unreadable sample_pandas (map_of sparse_fields ''created'')"
    by (simp add: sparse_fields_def)
  from classification_of_well_typed_issue[OF f ok t lib s e z] missing
  obtain n a sp where
    n: "status_of (JObj sparse_fields) = Inr (JStr n)"
    and a: "assignee_of (JObj sparse_fields) = Inr a"
    and sp: "py_get (JObj sparse_fields) ''customfield_10016'' (JNum 0) = Inr sp"
    and r: "get_spillover_reason sample_pandas (JObj sparse_issue) sprint_start0 sprint_end0 =
              Inr (if map lower_char n = ''done'' then None
                   else Some (rules_3_to_6 sp
                     (stamp_of sample_pandas (map_of sparse_fields ''updated''))
                     a (Timestamp 15 True)))"
    by blast
  from n have n': "n = []" by (simp add: sparse_fields_def status_of_def ebind_def)
  from a have a': "a = JStr ''Unassigned''"
    by (simp add: sparse_fields_def assignee_of_def ebind_def)
  from sp have sp': "sp = JNum 0" by (simp add: sparse_fields_def)
  show ?thesis
    unfolding r n' a' sp' u by (simp add: rules_3_to_6_def rules_5_to_6_def)
qed

text \<open>
  The claim as it stands fails: a story-point field that holds a non-empty string
  reaches the comparison \<^verbatim>\<open>story_points >= 8\<close>, which raises \<^verbatim>\<open>TypeError\<close>; nothing
  replaces the value by a default.
\<close>

theorem text_points_raise:
  "get_spillover_reason sample_pandas text_points_issue sprint_start0 sprint_end0 =
     Inl TypeError"
  by (simp add: get_spillover_reason_def text_points_issue_def status_entry_def status_of_def
      assignee_of_def ebind_def sample_pandas_def sprint_start0_def sprint_end0_def
      lower_char_def)

subsection \<open>The first three rules where the assignee entry is absent or a dict\<close>

text \<open>
  A done issue is no spillover whatever its story points and timestamps; an issue created
  after the sprint start is \<open>Scope added mid-sprint\<close> whatever its story points, its
  update time and its assignee; an issue of 8 points or more that was not created
  after the start is \<open>Underestimated effort\<close>; absent story points never are.
\<close>

lemma done_is_absent:
  assumes f: "map_of kvs ''fields'' = Some (JObj fs)"
    and n: "status_of (JObj fs) = Inr (JStr n)" "map lower_char n = ''done''"
    and a: "absent_or_dict (map_of fs ''assignee'')"
    and c: "map_of fs ''created'' = Some (JStr c)"
    and u: "map_of fs ''updated'' = Some (JStr u)"
  shows "get_spillover_reason P (JObj kvs) ss se = Inr None"
proof -
  from assignee_read[OF a] obtain x where x: "assignee_of (JObj fs) = Inr x" ..
  obtain sp where sp: "py_get (JObj fs) ''customfield_10016'' (JNum 0) = Inr sp"
    using py_get_dict by blast
  have pc: "py_get (JObj fs) ''created'' JNull = Inr (JStr c)"
    and pu: "py_get (JObj fs) ''updated'' JNull = Inr (JStr u)"
    using c u by simp_all
  show ?thesis
    unfolding get_spillover_reason_def using f n x sp pc pu
    by (simp add: ebind_Inr to_datetime_coerce_str del: to_datetime.simps py_get.simps)
qed

lemma created_after_start_is_scope_added:
  assumes f: "map_of kvs ''fields'' = Some (JObj fs)"
    and n: "status_of (JObj fs) = Inr (JStr n)" "map lower_char n \<noteq> ''done''"
    and a: "absent_or_dict (map_of fs ''assignee'')"
    and c: "map_of fs ''created'' = Some (JStr c)"
    and u: "map_of fs ''updated'' = Some (JStr u)"
    and t: "parse_dt P c = Some (Timestamp created z)"
           "to_datetime P False ss = Inr (Some (Timestamp start z))" "start < created"
  shows "get_spillover_reason P (JObj kvs) ss se = Inr (Some ''Scope added mid-sprint'')"
proof -
  from assignee_read[OF a] obtain x where x: "assignee_of (JObj fs) = Inr x" ..
  obtain sp where sp: "py_get (JObj fs) ''customfield_10016'' (JNum 0) = Inr sp"
    using py_get_dict by blast
  have pc: "py_get (JObj fs) ''created'' JNull = Inr (JStr c)"
    and pu: "py_get (JObj fs) ''updated'' JNull = Inr (JStr u)"
    using c u by simp_all
  show ?thesis
    unfolding get_spillover_reason_def using f n x sp pc pu t
    by (simp add: ebind_Inr to_datetime_coerce_str del: to_datetime.simps py_get.simps)
qed

lemma eight_points_is_underestimated:
  assumes f: "map_of kvs ''fields'' = Some (JObj fs)"
    and n: "status_of (JObj fs) = Inr (JStr n)" "map lower_char n \<noteq> ''done''"
    and a: "absent_or_dict (map_of fs ''assignee'')"
    and c: "map_of fs ''created'' = Some (JStr c)"
    and u: "map_of fs ''updated'' = Some (JStr u)"
    and t: "to_datetime P False ss = Inr (Some s)"
           "py_gt (Some (case parse_dt P c of None \<Rightarrow> NaT | Some t \<Rightarrow> t)) (Some s) = Inr False"
    and p: "map_of fs ''customfield_10016'' = Some (JNum x)" "8 \<le> x"
  shows "get_spillover_reason P (JObj kvs) ss se = Inr (Some ''Underestimated effort'')"
proof -
  from assignee_read[OF a] obtain y where y: "assignee_of (JObj fs) = Inr y" ..
  have sp: "py_get (JObj fs) ''customfield_10016'' (JNum 0) = Inr (JNum x)"
    using p by simp
  have pc: "py_get (JObj fs) ''created'' JNull = Inr (JStr c)"
    and pu: "py_get (JObj fs) ''updated'' JNull = Inr (JStr u)"
    using c u by simp_all
  from p have "x \<noteq> 0" by auto
  then show ?thesis
    unfolding get_spillover_reason_def using f n y sp pc pu t p
    by (simp add: ebind_Inr to_datetime_coerce_str del: to_datetime.simps py_get.simps)
qed


lemma absent_points_never_underestimated:
  assumes "map_of kvs ''fields'' = Some (JObj fs)" and "map_of fs ''customfield_10016'' = None"
  shows "get_spillover_reason P (JObj kvs) ss se \<noteq> Inr (Some ''Underestimated effort'')"
  unfolding get_spillover_reason_def using assms
  by (simp add: ebind_def split: sum.splits)

subsection \<open>Issues without an assignee\<close>

text \<open>
  The tracker sends \<^verbatim>\<open>"assignee": null\<close> for an issue nobody is assigned to. The key
  is present, so \<^verbatim>\<open>fields.get("assignee", {})\<close> is \<^verbatim>\<open>None\<close> and the chained \<^verbatim>\<open>.get\<close> of
  line 52 raises \<^verbatim>\<open>AttributeError\<close>, before the status is looked at. (The null of an
  unset story-point field is guarded, by the truth test of line 60.)
\<close>

lemma unassigned_raises:
  assumes "map_of kvs ''fields'' = Some (JObj fs)" and "map_of fs ''assignee'' = Some JNull"
    and "status_of (JObj fs) = Inr st"
    and "map_of fs ''created'' = Some (JStr c)" and "map_of fs ''updated'' = Some (JStr u)"
  shows "get_spillover_reason P (JObj kvs) ss se = Inl AttributeError"
proof -
  obtain sp where sp: "py_get (JObj fs) ''customfield_10016'' (JNum 0) = Inr sp"
    using py_get_dict by blast
  have pc: "py_get (JObj fs) ''created'' JNull = Inr (JStr c)"
    and pu: "py_get (JObj fs) ''updated'' JNull = Inr (JStr u)"
    using assms(4,5) by simp_all
  have a: "assignee_of (JObj fs) = Inl AttributeError"
    using assms(2) by (simp add: assignee_of_def ebind_def)
  show ?thesis
    unfolding get_spillover_reason_def using assms(1,3) sp pc pu a
    by (simp add: ebind_Inr ebind_Inl to_datetime_coerce_str
        del: to_datetime.simps py_get.simps)
qed

text \<open>
  C2. An issue whose status category is \<open>Done\<close> is claimed to classify as absent
  whatever its other fields hold. With a null assignee the classifier raises instead,
  for every date parser and all sprint bounds.
\<close>

theorem done_unassigned_issue_raises:
  "get_spillover_reason P done_unassigned_issue sprint_start sprint_end = Inl AttributeError"
  unfolding done_unassigned_issue_def
  by (rule unassigned_raises[where fs = done_unassigned_fields])
     (simp_all add: done_unassigned_fields_def status_entry_def status_of_def ebind_def)

text \<open>
  C3. An issue that is not done and was created after the sprint start is claimed to
  classify as \<open>Scope added mid-sprint\<close>, also when it is unassigned. The unassigned issue
  created on day 8 of the sprint makes the classifier raise.
\<close>

theorem late_unassigned_issue_raises:
  "get_spillover_reason P late_unassigned_issue sprint_start sprint_end = Inl AttributeError"
  unfolding late_unassigned_issue_def
  by (rule unassigned_raises[where fs = late_unassigned_fields])
     (simp_all add: late_unassigned_fields_def status_entry_def status_of_def ebind_def)

text \<open>
  C7. An issue that is not done, was not created after the sprint start and has 8
  story points is claimed to classify as \<open>Underestimated effort\<close>. When nobody is
  assigned to it the classifier raises.
\<close>

theorem large_unassigned_issue_raises:
  "get_spillover_reason P large_unassigned_issue sprint_start sprint_end = Inl AttributeError"
  unfolding large_unassigned_issue_def
  by (rule unassigned_raises[where fs = large_unassigned_fields])
     (simp_all add: large_unassigned_fields_def status_entry_def status_of_def ebind_def)


section \<open>Properties of the run\<close>

lemma rbind_Some_Inr: "rbind (Some (Inr x)) f = f x"
  by (simp add: rbind_def)

lemma rbind_Some_Inl: "rbind (Some (Inl e)) f = Some (Inl e)"
  by (simp add: rbind_def)

lemma rbind_None: "rbind None f = None"
  by (simp add: rbind_def)

lemma rbind_eq_Some_Inr:
  "rbind m f = Some (Inr y) \<longleftrightarrow> (\<exists>x. m = Some (Inr x) \<and> f x = Some (Inr y))"
  by (auto simp: rbind_def split: option.splits sum.splits)

lemma rbind_assoc: "rbind (rbind m f) g = rbind m (\<lambda>x. rbind (f x) g)"
  by (simp add: rbind_def split: option.split sum.split)

lemma rbind_if: "rbind (if c then a else b) f = (if c then rbind a f else rbind b f)"
  by simp

text \<open>
  C8. A sprint whose start date or end date is missing (absent, null or empty) is passed
  over: handling it and then the remaining sprints is handling the remaining sprints,
  from the same state. No record is added and no request is sent for it, whatever the
  issue service would have answered, and the run goes on. (The sprint's \<^verbatim>\<open>id\<close> and
  \<^verbatim>\<open>name\<close>, which every sprint of the tracker has, are read before the dates.)
\<close>

theorem sprint_without_dates_is_skipped:
  assumes "map_of kvs ''id'' = Some sprint_id" and "map_of kvs ''name'' = Some sprint_name"
    and "(case map_of kvs ''startDate'' of None \<Rightarrow> True | Some v \<Rightarrow> \<not> truthy v)
       \<or> (case map_of kvs ''endDate'' of None \<Rightarrow> True | Some v \<Rightarrow> \<not> truthy v)"
  shows "process_sprints P isrv (JObj kvs # sprints) st = process_sprints P isrv sprints st"
  using assms by (auto simp: rbind_Some_Inr split: option.splits)

theorem sprint_without_dates_is_skipped_witness:
  "process_sprints sample_pandas (\<lambda>sprint_id k off. Inl RequestError)
     [JObj dateless_sprint] blank_state = Some (Inr blank_state)"
  using sprint_without_dates_is_skipped[of dateless_sprint "JNum 8" "JStr ''Sprint 8''"
      sample_pandas "\<lambda>sprint_id k off. Inl RequestError" "[]" blank_state]
  by (simp add: dateless_sprint_def)

subsection \<open>One row per fetched issue, its reason absent exactly when it is done\<close>

lemma reason_absent_iff_done:
  assumes "get_spillover_reason P issue ss se = Inr r"
    and "subscript issue ''fields'' = Inr fds" and "status_of fds = Inr status"
  shows "r = None \<longleftrightarrow> py_lower status = Inr ''done''"
  using assms unfolding get_spillover_reason_def
  by (auto simp: ebind_def split: sum.splits if_splits)

lemma make_record_matches:
  assumes "make_record P nm ss se issue = Inr r"
  shows "row_matches issue r"
proof -
  from assms obtain fds a status sp reason key summ where
    f: "subscript issue ''fields'' = Inr fds" and a: "assignee_of fds = Inr a"
    and st: "status_of fds = Inr status"
    and re: "get_spillover_reason P issue ss se = Inr reason"
    and k: "subscript issue ''key'' = Inr key"
    and r: "r = \<lparr>Sprint = nm, Assignee = a, Issue_Key = key, Summary = summ,
                 Status = status, Story_Points = sp, Spillover_Reason = reason\<rparr>"
    unfolding make_record_def by (auto simp: ebind_def split: sum.splits)
  have "is_done issue \<longleftrightarrow> py_lower status = Inr ''done''"
    by (simp add: is_done_def f st ebind_Inr)
  with reason_absent_iff_done[OF re f st]
  have d: "is_done issue \<longleftrightarrow> Spillover_Reason r = None" by (simp add: r)
  have n: "nameless issue \<longleftrightarrow> Assignee r = JNull \<or> Issue_Key r = JNull"
    by (simp add: nameless_def f a k r ebind_Inr)
  from d n show ?thesis by (simp add: row_matches_def)
qed

lemma process_issues_rows:
  assumes "process_issues P nm ss se issues recs = Inr recs'"
  shows "\<exists>new. recs' = recs @ new \<and> list_all2 row_matches issues new"
  using assms
proof (induction issues arbitrary: recs)
  case Nil
  then show ?case by simp
next
  case (Cons i issues)
  from Cons.prems obtain r where r: "make_record P nm ss se i = Inr r"
    and rest: "process_issues P nm ss se issues (recs @ [r]) = Inr recs'"
    by (auto simp: ebind_def split: sum.splits)
  from Cons.IH[OF rest] obtain new where
    "recs' = (recs @ [r]) @ new" "list_all2 row_matches issues new" by blast
  with make_record_matches[OF r]
  have "recs' = recs @ (r # new) \<and> list_all2 row_matches (i # issues) (r # new)"
    by simp
  then show ?case by blast
qed

lemma process_sprints_rows:
  assumes "process_sprints P isrv sprints st = Some (Inr st')"
  shows "\<exists>new. records st' = records st @ new
           \<and> list_all2 row_matches (fetched_issues isrv sprints) new"
  using assms
proof (induction sprints arbitrary: st)
  case Nil
  then show ?case by simp
next
  case (Cons sprint sprints)
  from Cons.prems obtain sid nm ss se where
    reads: "subscript sprint ''id'' = Inr sid" "subscript sprint ''name'' = Inr nm"
      "py_get sprint ''startDate'' JNull = Inr ss" "py_get sprint ''endDate'' JNull = Inr se"
    by (auto simp: rbind_def split: sum.splits)
  show ?case
  proof (cases "\<not> truthy ss \<or> \<not> truthy se")
    case True
    with Cons.prems reads have "process_sprints P isrv sprints st = Some (Inr st')"
      by (simp add: rbind_Some_Inr)
    from Cons.IH[OF this] True reads show ?thesis by auto
  next
    case False
    with Cons.prems reads obtain fetched recs where
      gi: "get_issues_for_sprint (isrv sid) = Some (Inr fetched)"
      and pi: "process_issues P nm ss se (gathered fetched) (records st) = Inr recs"
      and rest: "process_sprints P isrv sprints
                   (st\<lparr>records := recs,
                       issue_requests := issue_requests st @ [(sid, requested fetched)]\<rparr>)
                 = Some (Inr st')"
      by (auto simp: rbind_def split: option.splits sum.splits)
    from process_issues_rows[OF pi] obtain new1 where
      n1: "recs = records st @ new1" "list_all2 row_matches (gathered fetched) new1" by blast
    from Cons.IH[OF rest] obtain new2 where
      n2: "records st' = recs @ new2" "list_all2 row_matches (fetched_issues isrv sprints) new2"
      by auto
    have "fetched_issues isrv (sprint # sprints) = gathered fetched @ fetched_issues isrv sprints"
      using False reads gi by simp
    with n1 n2 have "records st' = records st @ (new1 @ new2)
       \<and> list_all2 row_matches (fetched_issues isrv (sprint # sprints)) (new1 @ new2)"
      by (simp add: list_all2_appendI)
    then show ?thesis by blast
  qed
qed

lemma list_all2_filter_length:
  assumes "list_all2 R xs ys" and "\<And>x y. R x y \<Longrightarrow> p x = q y"
  shows "length (filter p xs) = length (filter q ys)"
  using assms by (induction rule: list_all2_induct) auto

lemma list_all2_list_all:
  assumes "list_all2 R xs ys" and "list_all p xs" and "\<And>x y. R x y \<Longrightarrow> p x \<Longrightarrow> q y"
  shows "list_all q ys"
  using assms by (induction rule: list_all2_induct) auto

subsection \<open>The groups partition the spilled rows\<close>

lemma emap_map:
  assumes "emap f xs = Inr ys" and "\<And>x y. f x = Inr y \<Longrightarrow> g y = h x"
  shows "map g ys = map h xs"
  using assms(1)
proof (induction xs arbitrary: ys)
  case Nil
  then show ?case by simp
next
  case (Cons x xs)
  from Cons.prems obtain y ys' where y: "f x = Inr y" and ys': "emap f xs = Inr ys'"
    and ys: "ys = y # ys'"
    by (auto simp: ebind_def split: sum.splits)
  from Cons.IH[OF ys'] assms(2)[OF y] ys show ?case by simp
qed

lemma summarise_group_fields:
  assumes "summarise_group P column spilled k = Inr row"
  shows "Spilled_Issues row =
           length (filter (\<lambda>r. Issue_Key r \<noteq> JNull) (filter (\<lambda>r. row_key r = Some k) spilled))"
    and "(Assignee_key row, Reason_key row) = k"
  using assms by (auto simp: summarise_group_def Let_def ebind_def split: sum.splits)

lemma sum_list_indicator:
  "distinct ks \<Longrightarrow> k \<in> set ks \<Longrightarrow> sum_list (map (\<lambda>x. if x = k then 1 else 0) ks) = (1::nat)"
  by (induction ks) auto

lemma groups_partition:
  assumes "distinct ks" and "\<forall>r\<in>set rs. \<exists>k\<in>set ks. row_key r = Some k"
  shows "sum_list (map (\<lambda>k. length (filter (\<lambda>r. row_key r = Some k) rs)) ks) = length rs"
  using assms(2)
proof (induction rs)
  case Nil
  then show ?case by simp
next
  case (Cons r rs)
  then obtain k where k: "k \<in> set ks" "row_key r = Some k" by auto
  have "sum_list (map (\<lambda>x. length (filter (\<lambda>r. row_key r = Some x) (r # rs))) ks) =
        sum_list (map (\<lambda>x. (if x = k then 1 else 0)
                           + length (filter (\<lambda>r. row_key r = Some x) rs)) ks)"
    using k(2) by (intro arg_cong[where f = sum_list] map_cong) auto
  also have "\<dots> = sum_list (map (\<lambda>x. if x = k then 1 else 0) ks)
                 + sum_list (map (\<lambda>x. length (filter (\<lambda>r. row_key r = Some x) rs)) ks)"
    by (simp add: sum_list_addf)
  also have "\<dots> = 1 + length rs"
    using sum_list_indicator[OF assms(1) k(1)] Cons by simp
  finally show ?case by simp
qed

lemma aggregate_counts:
  assumes agg: "aggregate P recs = Inr rows"
    and keyed: "list_all keyed recs"
  shows "sum_list (map Spilled_Issues rows) =
           length (filter (\<lambda>r. Spillover_Reason r \<noteq> None) recs)"
    and "distinct (map (\<lambda>s. (Assignee_key s, Reason_key s)) rows)"
    and "\<forall>r\<in>set recs. Spillover_Reason r \<noteq> None \<longrightarrow>
           row_key r \<in> Some ` set (map (\<lambda>s. (Assignee_key s, Reason_key s)) rows)"
proof -
  let ?spilled = "filter (\<lambda>r. Spillover_Reason r \<noteq> None) recs"
  let ?keys = "sort_key (\<lambda>k. (group_rank P (fst k), snd k))
                 (remdups (List.map_filter row_key ?spilled))"
  from agg have em: "emap (summarise_group P (map Story_Points recs) ?spilled) ?keys = Inr rows"
    by (auto simp: aggregate_def Let_def split: if_splits)
  have key_of: "\<exists>k. row_key r = Some k" if "r \<in> set ?spilled" for r
  proof -
    from that keyed have "Assignee r \<noteq> JNull" by (auto simp: list_all_iff keyed_def)
    with that show ?thesis by (cases "Assignee r") auto
  qed
  have nonnull: "Issue_Key r \<noteq> JNull" if "r \<in> set ?spilled" for r
    using that keyed by (auto simp: list_all_iff keyed_def)
  have dk: "distinct ?keys" by simp
  have cover: "\<forall>r\<in>set ?spilled. \<exists>k\<in>set ?keys. row_key r = Some k"
  proof
    fix r assume r: "r \<in> set ?spilled"
    from key_of[OF r] obtain k where k: "row_key r = Some k" ..
    with r have "k \<in> set (List.map_filter row_key ?spilled)"
      unfolding List.map_filter_def by force
    with k show "\<exists>k\<in>set ?keys. row_key r = Some k" by simp
  qed
  have counts: "map Spilled_Issues rows =
      map (\<lambda>k. length (filter (\<lambda>r. row_key r = Some k) ?spilled)) ?keys"
  proof (rule emap_map[OF em])
    fix k row assume "summarise_group P (map Story_Points recs) ?spilled k = Inr row"
    from summarise_group_fields(1)[OF this]
    have "Spilled_Issues row =
        length (filter (\<lambda>r. Issue_Key r \<noteq> JNull)
                  (filter (\<lambda>r. row_key r = Some k) ?spilled))" .
    also have "filter (\<lambda>r. Issue_Key r \<noteq> JNull) (filter (\<lambda>r. row_key r = Some k) ?spilled)
                = filter (\<lambda>r. row_key r = Some k) ?spilled"
      using nonnull by (intro filter_True) auto
    finally show "Spilled_Issues row = length (filter (\<lambda>r. row_key r = Some k) ?spilled)" .
  qed
  show "sum_list (map Spilled_Issues rows) = length ?spilled"
    unfolding counts by (rule groups_partition[OF dk cover])
  have keys: "map (\<lambda>s. (Assignee_key s, Reason_key s)) rows = ?keys"
    using emap_map[OF em, where g = "\<lambda>s. (Assignee_key s, Reason_key s)" and h = "\<lambda>k. k"]
      summarise_group_fields(2) by simp
  show "distinct (map (\<lambda>s. (Assignee_key s, Reason_key s)) rows)"
    unfolding keys by (rule dk)
  show "\<forall>r\<in>set recs. Spillover_Reason r \<noteq> None \<longrightarrow>
           row_key r \<in> Some ` set (map (\<lambda>s. (Assignee_key s, Reason_key s)) rows)"
    unfolding keys using cover by auto
qed

lemma sample_run:
  "analyze_spillovers sample_pandas sample_sprint_server sample_issue_server blank_state =
     Some (Inr sample_outcome)"
  by code_simp

lemma sample_sprints:
  "get_sprints sample_sprint_server =
     Some (Inr \<lparr>gathered = [JObj dateless_sprint, JObj dated_sprint], start_at = 0,
                 requested = [0]\<rparr>)"
  by code_simp

text \<open>Without any record there is no summary: the frame has no column to select.\<close>

lemma aggregate_of_no_records: "aggregate P [] = Inl KeyError"
  by (simp add: aggregate_def)

text \<open>
  C6 (as amended). Take a run that returns, and let no fetched issue that is not done
  be nameless (a null display name or a null key). Then there is one row per issue
  fetched for the sprints that have both dates, with a reason exactly when the issue is
  not done; every row with a reason lies in exactly one group of the summary, the one
  of its assignee and reason; and the issue counts of the groups add up to the number
  of fetched issues that are not done.
\<close>

theorem summary_counts_spilled_issues:
  assumes sprints: "get_sprints ssrv = Some (Inr fetched)"
    and run: "analyze_spillovers P ssrv isrv st0 = Some (Inr st)"
    and named: "list_all (\<lambda>issue. is_done issue \<or> \<not> nameless issue)
                  (fetched_issues isrv (gathered fetched))"
  shows "list_all2 (\<lambda>issue r. not_done issue \<longleftrightarrow> Spillover_Reason r \<noteq> None)
           (fetched_issues isrv (gathered fetched)) (records st)
       \<and> (\<forall>r\<in>set (records st). Spillover_Reason r \<noteq> None \<longrightarrow>
            (\<exists>!s. s \<in> set (summary st) \<and> row_key r = Some (Assignee_key s, Reason_key s)))
       \<and> sum_list (map Spilled_Issues (summary st)) =
           length (filter not_done (fetched_issues isrv (gathered fetched)))"
proof -
  let ?issues = "fetched_issues isrv (gathered fetched)"
  from run[unfolded analyze_spillovers_def rbind_eq_Some_Inr] obtain fetched' st' rows where
    gs: "get_sprints ssrv = Some (Inr fetched')" and
    ps: "process_sprints P isrv (gathered fetched')
           (st0\<lparr>records := [], sprint_requests := requested fetched', issue_requests := []\<rparr>)
         = Some (Inr st')"
    and agg0: "Some (aggregate P (records st')) = Some (Inr rows)"
    and st0: "Some (Inr (st'\<lparr>summary := rows\<rparr>) :: error + run_state) = Some (Inr st)"
    by (elim exE conjE) (rule that, assumption+)
  from gs sprints have same: "fetched' = fetched" by simp
  from agg0 have agg: "aggregate P (records st') = Inr rows" by simp
  from st0 have st: "st = st'\<lparr>summary := rows\<rparr>" by simp
  have recs: "records st = records st'" and summ: "summary st = rows" using st by simp_all
  from process_sprints_rows[OF ps] have rows: "list_all2 row_matches ?issues (records st)"
    by (simp add: recs same)
  have one_row: "list_all2 (\<lambda>issue r. not_done issue \<longleftrightarrow> Spillover_Reason r \<noteq> None)
                   ?issues (records st)"
    by (rule list_all2_mono[OF rows]) (auto simp: row_matches_def not_done_def)
  have keyed: "list_all keyed (records st)"
    by (rule list_all2_list_all[OF rows named]) (auto simp: row_matches_def keyed_def)
  note ac = aggregate_counts[OF agg[folded recs] keyed]
  have "length (filter not_done ?issues) =
        length (filter (\<lambda>r. Spillover_Reason r \<noteq> None) (records st))"
    by (rule list_all2_filter_length[OF rows]) (auto simp: row_matches_def not_done_def)
  with ac(1) have count: "sum_list (map Spilled_Issues (summary st)) =
                            length (filter not_done ?issues)"
    by (simp add: summ)
  have bucket: "\<exists>!s. s \<in> set (summary st) \<and> row_key r = Some (Assignee_key s, Reason_key s)"
    if r: "r \<in> set (records st)" "Spillover_Reason r \<noteq> None" for r
  proof -
    from ac(3) r obtain s where s: "s \<in> set rows"
      "row_key r = Some (Assignee_key s, Reason_key s)" by auto
    have inj: "inj_on (\<lambda>s. (Assignee_key s, Reason_key s)) (set rows)"
      using ac(2) by (simp add: distinct_map)
    show ?thesis
    proof (rule ex1I[of _ s])
      show "s \<in> set (summary st) \<and> row_key r = Some (Assignee_key s, Reason_key s)"
        using s by (simp add: summ)
    next
      fix s' assume "s' \<in> set (summary st) \<and> row_key r = Some (Assignee_key s', Reason_key s')"
      with s inj show "s' = s" by (auto simp: summ dest: inj_onD)
    qed
  qed
  from one_row count bucket show ?thesis by blast
qed

theorem summary_counts_spilled_issues_witness:
  "sum_list (map Spilled_Issues (summary sample_outcome)) =
     length (filter not_done
       (fetched_issues sample_issue_server [JObj dateless_sprint, JObj dated_sprint]))
   \<and> sum_list (map Spilled_Issues (summary sample_outcome)) = 4"
proof -
  have named: "list_all (\<lambda>issue. is_done issue \<or> \<not> nameless issue)
      (fetched_issues sample_issue_server
         (gathered \<lparr>gathered = [JObj dateless_sprint, JObj dated_sprint], start_at = 0,
                    requested = [0]\<rparr>))"
    by code_simp
  from summary_counts_spilled_issues[OF sample_sprints sample_run named]
  have "sum_list (map Spilled_Issues (summary sample_outcome)) =
     length (filter not_done
       (fetched_issues sample_issue_server
         (gathered \<lparr>gathered = [JObj dateless_sprint, JObj dated_sprint], start_at = 0,
                    requested = [0]\<rparr>)))"
    by (elim conjE)
  then have a: "sum_list (map Spilled_Issues (summary sample_outcome)) =
     length (filter not_done
       (fetched_issues sample_issue_server [JObj dateless_sprint, JObj dated_sprint]))"
    by (simp only: fetch_state.simps)
  have b: "sum_list (map Spilled_Issues (summary sample_outcome)) = 4"
    by (simp add: sample_outcome_def)
  from a b show ?thesis by (rule conjI)
qed

text \<open>
  The claim as it stands fails: \<^verbatim>\<open>groupby\<close> drops a row whose display name is null, so an
  issue that is not done can lie in no group. On the board with two such issues, one of
  them with a null display name, the run returns and the counts add up to 1.
\<close>

theorem nameless_issue_is_in_no_group:
  "analyze_spillovers sample_pandas single_sprint_server nameless_issue_server blank_state =
     Some (Inr nameless_outcome)
   \<and> sum_list (map Spilled_Issues (summary nameless_outcome)) = 1
   \<and> length (filter not_done (fetched_issues nameless_issue_server [JObj dated_sprint])) = 2"
  by code_simp

subsection \<open>Nothing is carried over from one run to the next\<close>

lemma process_sprints_summary:
  "process_sprints P isrv sprints (st\<lparr>summary := x\<rparr>) =
     rbind (process_sprints P isrv sprints st) (\<lambda>s. Some (Inr (s\<lparr>summary := x\<rparr>)))"
proof (induction sprints arbitrary: st)
  case Nil
  show ?case by (simp add: rbind_def)
next
  case (Cons sprint sprints)
  have swap: "st\<lparr>summary := x, records := r, issue_requests := i\<rparr> =
              (st\<lparr>records := r, issue_requests := i\<rparr>)\<lparr>summary := x\<rparr>" for r i
    by (cases st) simp
  have IH': "process_sprints P isrv sprints
               (st\<lparr>summary := x, records := r, issue_requests := i\<rparr>) =
             rbind (process_sprints P isrv sprints (st\<lparr>records := r, issue_requests := i\<rparr>))
               (\<lambda>s. Some (Inr (s\<lparr>summary := x\<rparr>)))" for r i
    unfolding swap by (rule Cons.IH)
  show ?case
    by (simp add: rbind_assoc rbind_if IH' Cons.IH cong: if_cong)
qed

text \<open>
  C9. The run is a function of its inputs alone: it overwrites the variables it uses
  (\<^verbatim>\<open>records\<close> starts from the empty list, line 72), so its outcome does not depend on
  what they held before, and a second run over the same inputs, started from the state
  the first one left, ends in the same state: the same rows with the same counts and
  sums in the same order.
\<close>

theorem run_independent_of_prior_state:
  "analyze_spillovers P ssrv isrv st' = analyze_spillovers P ssrv isrv st
   \<and> rbind (analyze_spillovers P ssrv isrv st) (analyze_spillovers P ssrv isrv) =
       analyze_spillovers P ssrv isrv st"
proof -
  have indep: "analyze_spillovers P ssrv isrv a = analyze_spillovers P ssrv isrv b" for a b
  proof -
    have init: "a\<lparr>records := [], sprint_requests := r, issue_requests := []\<rparr> =
                (b\<lparr>records := [], sprint_requests := r, issue_requests := []\<rparr>)
                  \<lparr>summary := summary a\<rparr>" for r
      by (cases a; cases b) simp
    show ?thesis
      unfolding analyze_spillovers_def init process_sprints_summary
      by (simp add: rbind_def split: option.split sum.split)
  qed
  have twice: "rbind (analyze_spillovers P ssrv isrv st) (analyze_spillovers P ssrv isrv) =
       analyze_spillovers P ssrv isrv st"
  proof (cases "analyze_spillovers P ssrv isrv st")
    case None
    then show ?thesis by (simp add: rbind_def)
  next
    case (Some r)
    show ?thesis
    proof (cases r)
      case (Inl e)
      with Some show ?thesis by (simp add: rbind_def)
    next
      case (Inr st1)
      with Some indep[of st1 st] show ?thesis by (simp add: rbind_def)
    qed
  qed
  from indep twice show ?thesis by blast
qed

end
